theory Spec2Isabelle
  imports Main "HOL-Library.AList" "HOL-Library.Sublist"
begin

section \<open>Python string operations used by the converter\<close>

text \<open>
  A Python \<open>str\<close> is a sequence of code points. It is modelled as a \<open>string\<close> whose
  characters are read as the code points U+0000 to U+00FF, which covers every character
  the source names in a literal (the degree sign is \<open>CHR 0xB0\<close>, superscript two and
  three are \<open>CHR 0xB2\<close> and \<open>CHR 0xB3\<close>).
\<close>

text \<open>\<open>s.replace(old, new)\<close> for a non-empty \<open>old\<close>: every non-overlapping occurrence,
  scanning from the left.\<close>

fun replace_ne :: "string \<Rightarrow> string \<Rightarrow> string \<Rightarrow> string" where
  "replace_ne old new [] = []"
| "replace_ne old new (c # cs) =
     (if old \<noteq> [] \<and> prefix old (c # cs)
      then new @ replace_ne old new (drop (length old) (c # cs))
      else c # replace_ne old new cs)"

text \<open>\<open>s.replace(old, new)\<close>; with an empty \<open>old\<close> Python inserts \<open>new\<close> before every
  character and at the end.\<close>

definition py_replace :: "string \<Rightarrow> string \<Rightarrow> string \<Rightarrow> string" where
  "py_replace old new s =
     (if old = [] then new @ concat (map (\<lambda>c. c # new) s) else replace_ne old new s)"

text \<open>\<open>re.sub('_+', '_', s)\<close>: every maximal run of underscores becomes one underscore.\<close>

fun collapse_underscores :: "string \<Rightarrow> string" where
  "collapse_underscores [] = []"
| "collapse_underscores [c] = [c]"
| "collapse_underscores (c # d # cs) =
     (if c = CHR ''_'' \<and> d = CHR ''_'' then collapse_underscores (d # cs)
      else c # collapse_underscores (d # cs))"

text \<open>\<open>s.strip(chars)\<close>: drop the characters of \<open>chars\<close> from both ends.\<close>

definition py_strip :: "string \<Rightarrow> string \<Rightarrow> string" where
  "py_strip chars s =
     rev (dropWhile (\<lambda>c. c \<in> set chars) (rev (dropWhile (\<lambda>c. c \<in> set chars) s)))"

text \<open>\<open>c.isdigit()\<close> on one character below U+0100: the ASCII digits and the
  superscripts one, two and three.\<close>

definition py_isdigit :: "char \<Rightarrow> bool" where
  "py_isdigit c = (c \<in> set ''0123456789'' \<or> c = CHR 0xB2 \<or> c = CHR 0xB3 \<or> c = CHR 0xB9)"

section \<open>The variable-name sanitizer\<close>

text \<open>The chain of \<open>replace\<close> calls that opens the loop body of
  \<open>clean_variable_names\<close>, in the source's order.\<close>

definition apply_substitutions :: "string \<Rightarrow> string" where
  "apply_substitutions var_name =
     (let clean_name = py_replace ''/'' ''_per_'' var_name;
          clean_name = py_replace ''('' ''_'' clean_name;
          clean_name = py_replace '')'' ''_'' clean_name;
          clean_name = py_replace [CHR 0xB0] ''deg'' clean_name;
          clean_name = py_replace '' '' ''_'' clean_name;
          clean_name = py_replace '','' ''_'' clean_name;
          clean_name = py_replace ''-'' ''_'' clean_name;
          clean_name = py_replace ''.'' ''_'' clean_name;
          clean_name = py_replace [CHR 0xB2] ''2'' clean_name;
          clean_name = py_replace [CHR 0xB3] ''3'' clean_name
      in clean_name)"

text \<open>The whole loop body: the name under which one raw label is stored.\<close>

definition clean_name :: "string \<Rightarrow> string" where
  "clean_name var_name =
     (let clean_name = apply_substitutions var_name;
          clean_name = collapse_underscores clean_name;
          clean_name = py_strip ''_'' clean_name;
          clean_name = (if clean_name \<noteq> [] \<and> py_isdigit (hd clean_name)
                        then ''var_'' @ clean_name else clean_name);
          clean_name = (if clean_name = [] then ''unknown_variable'' else clean_name)
      in clean_name)"

text \<open>
  A Python \<open>dict\<close> keeps its keys in insertion order and an assignment to a key that is
  already present replaces the value in place: it is an association list with distinct
  keys, and \<open>d[k] = v\<close> is \<open>AList.update k v d\<close>.
\<close>

definition clean_variable_names :: "(string \<times> 'a) list \<Rightarrow> (string \<times> 'a) list" where
  "clean_variable_names data_vars =
     foldl (\<lambda>cleaned_vars (var_name, var_data).
              AList.update (clean_name var_name) var_data cleaned_vars) [] data_vars"

text \<open>
  The identifier shape the specification asks of a sanitized name, the regular expression
  \<^verbatim>\<open>^[A-Za-z_][A-Za-z0-9_]*$\<close> read as a match of the whole name.
\<close>

definition ident_start :: "char \<Rightarrow> bool" where
  "ident_start c = (c \<in> set ''ABCDEFGHIJKLMNOPQRSTUVWXYZabcdefghijklmnopqrstuvwxyz_'')"

definition ident_char :: "char \<Rightarrow> bool" where
  "ident_char c = (ident_start c \<or> c \<in> set ''0123456789'')"

definition is_identifier :: "string \<Rightarrow> bool" where
  "is_identifier s =
     (case s of [] \<Rightarrow> False | c # cs \<Rightarrow> ident_start c \<and> list_all ident_char cs)"

text \<open>The characters that \<open>apply_substitutions\<close> replaces.\<close>

definition replaced_chars :: "char set" where
  "replaced_chars = {CHR ''/'', CHR ''('', CHR '')'', CHR 0xB0, CHR '' '', CHR '','',
     CHR ''-'', CHR ''.'', CHR 0xB2, CHR 0xB3}"

text \<open>A label made only of ASCII letters, ASCII digits, underscores and replaced
  characters.\<close>

definition plain_label :: "string \<Rightarrow> bool" where
  "plain_label s = list_all (\<lambda>c. ident_char c \<or> c \<in> replaced_chars) s"

text \<open>No two underscores in a row: what \<open>collapse_underscores\<close> establishes.\<close>

fun no_double :: "string \<Rightarrow> bool" where
  "no_double [] = True"
| "no_double [c] = True"
| "no_double (c # d # cs) = (\<not> (c = CHR ''_'' \<and> d = CHR ''_'') \<and> no_double (d # cs))"

text \<open>The shape of every name the loop body produces; such a name is a fixed point of it.\<close>

definition sanitized :: "string \<Rightarrow> bool" where
  "sanitized s = (set s \<inter> replaced_chars = {} \<and> no_double s \<and> s \<noteq> [] \<and>
      hd s \<noteq> CHR ''_'' \<and> last s \<noteq> CHR ''_'' \<and> \<not> py_isdigit (hd s))"

section \<open>The batch orchestrator\<close>

text \<open>\<open>s.split(sep)\<close> for a separator of one character: always at least one piece.\<close>

fun split_char :: "char \<Rightarrow> string \<Rightarrow> string list" where
  "split_char sep [] = [[]]"
| "split_char sep (c # cs) =
     (if c = sep then [] # split_char sep cs
      else (case split_char sep cs of [] \<Rightarrow> [[c]] | w # ws \<Rightarrow> (c # w) # ws))"

text \<open>
  A filter argument of \<open>convert_csvs_to_netcdf\<close> is \<open>None\<close>, one string or a list of
  strings. \<open>str.upper\<close> is Python's; the orchestrator takes it as the parameter
  \<open>upper\<close>.
\<close>

datatype filter_value = NoFilter | One string | Many "string list"

definition normalize_filter :: "(string \<Rightarrow> string) \<Rightarrow> filter_value \<Rightarrow> string list option" where
  "normalize_filter upper filter_value =
     (case filter_value of
        NoFilter \<Rightarrow> None
      | One s \<Rightarrow> Some [upper s]
      | Many fs \<Rightarrow> Some (map upper fs))"

text \<open>The truth value Python gives a normalized filter in \<open>if region_filter and ...\<close>:
  false for \<open>None\<close> and for the empty list.\<close>

definition filter_set :: "string list option \<Rightarrow> bool" where
  "filter_set f = (case f of None \<Rightarrow> False | Some xs \<Rightarrow> xs \<noteq> [])"

definition in_filter :: "string \<Rightarrow> string list option \<Rightarrow> bool" where
  "in_filter x f = (case f of None \<Rightarrow> False | Some xs \<Rightarrow> x \<in> set xs)"

text \<open>
  The body of the filtering loop for one file name: \<open>False\<close> is the \<open>continue\<close> of a
  name with fewer than five segments or a filter that rejects the file.
\<close>

definition include_file ::
  "(string \<Rightarrow> string) \<Rightarrow> string list option \<Rightarrow> string list option \<Rightarrow> string list option \<Rightarrow>
   string \<Rightarrow> bool" where
  "include_file upper region_filter uf_filter wmo_filter filename =
     (let parts = split_char CHR ''_'' (py_replace ''.CSV'' [] filename)
      in if length parts < 5 then False
         else
           (let file_region = upper (parts ! 1);
                file_uf = upper (parts ! 2);
                file_wmo = upper (parts ! 3);
                include_file = True;
                include_file = (if filter_set region_filter \<and> \<not> in_filter file_region region_filter
                                then False else include_file);
                include_file = (if filter_set uf_filter \<and> \<not> in_filter file_uf uf_filter
                                then False else include_file);
                include_file = (if filter_set wmo_filter \<and> \<not> in_filter file_wmo wmo_filter
                                then False else include_file)
            in include_file))"

definition filtered_files ::
  "(string \<Rightarrow> string) \<Rightarrow> filter_value \<Rightarrow> filter_value \<Rightarrow> filter_value \<Rightarrow> bool \<Rightarrow>
   string list \<Rightarrow> string list" where
  "filtered_files upper region uf wmo_code all_files all_csv_files =
     (if all_files then all_csv_files
      else filter (include_file upper (normalize_filter upper region)
                     (normalize_filter upper uf) (normalize_filter upper wmo_code))
             all_csv_files)"

text \<open>
  The file system as the orchestrator sees it. A file is named by its name inside its
  folder: \<open>csv_files\<close> is what \<open>glob\<close> returns for \<open>INMET_*.CSV\<close> in the input folder, in
  that order, and \<open>netcdf_files\<close> is the set of names present in the sibling folder
  \<open>NETCDF\<close>. The contents of the input files do not change during a call.
\<close>

record world =
  folder_exists :: bool
  csv_files :: "string list"
  netcdf_files :: "string set"

text \<open>The local variables of the conversion loop, with the output folder.\<close>

record progress =
  saved :: "string list"
  failed :: "string list"
  skipped :: "string list"
  converted :: nat
  netcdf :: "string set"

definition netcdf_filename :: "string \<Rightarrow> string" where
  "netcdf_filename filename = py_replace ''.CSV'' ''.nc'' filename"

text \<open>
  One iteration of the conversion loop. \<open>parse\<close> is the per-file pipeline
  \<open>parse_inmet_csv_to_netcdf_robust\<close> applied to the file of that name. \<open>Inr\<close> is the
  dataset it returns after writing the output file. \<open>Inl (e, left)\<close> is an exception
  \<open>e\<close> it raises, caught by \<open>except Exception\<close>; \<open>left\<close> tells whether the run had
  created the output file when it raised: \<open>to_netcdf\<close> is the last step of the
  pipeline, and nothing removes a file it leaves behind.
\<close>

definition convert_file ::
  "(string \<Rightarrow> ('e \<times> bool) + 'ds) \<Rightarrow> bool \<Rightarrow> progress \<Rightarrow> string \<Rightarrow> progress" where
  "convert_file parse skip_existing st csv_file_path =
     (let output_path = netcdf_filename csv_file_path
      in if output_path \<in> netcdf st \<and> skip_existing
         then st\<lparr>skipped := skipped st @ [csv_file_path], saved := saved st @ [output_path]\<rparr>
         else (case parse csv_file_path of
                 Inl (e, left) \<Rightarrow>
                   st\<lparr>failed := failed st @ [csv_file_path],
                      netcdf := (if left then insert output_path (netcdf st) else netcdf st)\<rparr>
               | Inr dataset \<Rightarrow>
                   (let st = st\<lparr>netcdf := insert output_path (netcdf st)\<rparr>
                    in if output_path \<in> netcdf st
                       then st\<lparr>saved := saved st @ [output_path], converted := converted st + 1\<rparr>
                       else st\<lparr>failed := failed st @ [csv_file_path]\<rparr>)))"

text \<open>Whether the run of the pipeline on a file creates its output file.\<close>

definition creates_output :: "(string \<Rightarrow> ('e \<times> bool) + 'ds) \<Rightarrow> string \<Rightarrow> bool" where
  "creates_output parse csv_file_path =
     (case parse csv_file_path of Inl (e, left) \<Rightarrow> left | Inr dataset \<Rightarrow> True)"

definition convert_loop ::
  "(string \<Rightarrow> ('e \<times> bool) + 'ds) \<Rightarrow> bool \<Rightarrow> string list \<Rightarrow> progress \<Rightarrow> progress" where
  "convert_loop parse skip_existing files st = foldl (convert_file parse skip_existing) st files"

text \<open>The loop variables as they are set before the loop.\<close>

definition start_progress :: "world \<Rightarrow> progress" where
  "start_progress w = \<lparr>saved = [], failed = [], skipped = [], converted = 0,
     netcdf = netcdf_files w\<rparr>"

text \<open>The result record, without its two texts \<open>folder_path\<close> and \<open>message\<close>.\<close>

record NetCDFConversionResult =
  success :: bool
  converted_files :: nat
  skipped_files :: nat
  total_files_found :: nat
  saved_paths :: "string list"
  failed_files :: "string list"

definition failure_result :: "nat \<Rightarrow> NetCDFConversionResult" where
  "failure_result found = \<lparr>success = False, converted_files = 0, skipped_files = 0,
     total_files_found = found, saved_paths = [], failed_files = []\<rparr>"

text \<open>
  \<open>convert_csvs_to_netcdf\<close>: the result and the file system after the call. The three
  early returns leave the output folder as it is.
\<close>

definition convert_csvs_to_netcdf ::
  "(string \<Rightarrow> string) \<Rightarrow> (string \<Rightarrow> ('e \<times> bool) + 'ds) \<Rightarrow> world \<Rightarrow> filter_value \<Rightarrow> filter_value \<Rightarrow>
   filter_value \<Rightarrow> bool \<Rightarrow> bool \<Rightarrow> NetCDFConversionResult \<times> world" where
  "convert_csvs_to_netcdf upper parse w region uf wmo_code all_files skip_existing =
     (if \<not> folder_exists w then (failure_result 0, w)
      else
        (let all_csv_files = csv_files w
         in if all_csv_files = [] then (failure_result 0, w)
            else
              (let selected = filtered_files upper region uf wmo_code all_files all_csv_files
               in if selected = [] then (failure_result (length all_csv_files), w)
                  else
                    (let st = convert_loop parse skip_existing selected (start_progress w);
                         total_processed = converted st + length (skipped st)
                     in (\<lparr>success = (total_processed > 0),
                          converted_files = converted st,
                          skipped_files = length (skipped st),
                          total_files_found = length all_csv_files,
                          saved_paths = saved st,
                          failed_files = failed st\<rparr>,
                         w\<lparr>netcdf_files := netcdf st\<rparr>)))))"

text \<open>ASCII upper case, the value of \<open>str.upper\<close> on the ASCII names of the station
  files; used where a concrete \<open>upper\<close> is needed.\<close>

definition ascii_upper :: "string \<Rightarrow> string" where
  "ascii_upper s = map (\<lambda>c. if c \<in> set ''abcdefghijklmnopqrstuvwxyz''
                             then char_of (of_char c - (32::nat)) else c) s"

text \<open>A per-file pipeline that raises on exactly one file name, before it writes
  anything, for concrete runs.\<close>

definition fails_on :: "string \<Rightarrow> string \<Rightarrow> (unit \<times> bool) + unit" where
  "fails_on bad f = (if f = bad then Inl ((), False) else Inr ())"

section \<open>The per-file pipeline\<close>

text \<open>
  The pipeline calls Python's codecs and \<open>float\<close>, pandas and xarray. Each of these is a
  function the model is given, and where it can raise it returns an \<open>option\<close>, \<open>None\<close>
  being the exception:
  \<^item> \<open>py_codec enc bs\<close>: the text of the file \<open>bs\<close> read under cp1252 or utf-8, or
    \<open>UnicodeDecodeError\<close>; latin1 is not given but written out, since it reads every
    byte as the character of the same number and never raises;
  \<^item> \<open>py_float s\<close>: \<open>float(s)\<close> on a text, or \<open>ValueError\<close>;
  \<^item> \<open>py_float_num x\<close>: \<open>float(x)\<close> on a number of a loaded table;
  \<^item> \<open>pd_read_csv enc bs\<close>: the table \<open>pd.read_csv\<close> loads with the options of the
    source;
  \<^item> \<open>pd_astype_str c\<close>: the text \<open>astype(str)\<close> gives a cell;
  \<^item> \<open>pd_to_datetime s\<close>: the date and the hour of day of \<open>pd.to_datetime\<close> under the
    format \<^verbatim>\<open>%Y/%m/%d %H%M\<close>, \<open>None\<close> being \<open>NaT\<close>;
  \<^item> \<open>xr_store ds\<close>: whether \<open>xr.Dataset\<close> and \<open>to_netcdf\<close> go through, and when they
    raise, whether the output file was created before.
  The exceptions the pipeline can end with; \<open>StoreError left\<close> tells whether the output
  file is left behind:
\<close>

datatype error =
    EncodingFailure
  | IndexError
  | KeyError string
  | FloatError
  | PandasError
  | MissingEssentialColumns
  | StoreError bool

datatype encoding = Cp1252 | Latin1 | Utf8

type_synonym bytes = "nat list"

subsection \<open>Tables, arrays, datasets\<close>

text \<open>
  A cell of the loaded table is missing (\<open>NaN\<close>), a number that \<open>read_csv\<close> parsed, or a
  text that it left as it is: a column in which some value is not a number is loaded as
  text in every row, a decimal comma included. A table has its column names and its
  rows, each row giving one cell per column; pandas gives the columns of a loaded table
  distinct names.
\<close>

datatype 'n cell = NA | Num 'n | Str string

record 'n table =
  df_columns :: "string list"
  df_rows :: "'n cell list list"

text \<open>A numpy array: its shape and its elements in row-major order.\<close>

record 'a ndarray =
  nd_shape :: "nat list"
  nd_data :: "'a list"

text \<open>The dataset: the variables with their dimension names and arrays, the
  coordinates, and the attributes taken from the file. A cell of an array is \<open>None\<close> for
  \<open>NaN\<close>. The creation time is left out.\<close>

record ('d, 'f) dataset =
  ds_data_vars :: "(string \<times> string list \<times> 'f option ndarray) list"
  ds_region :: string
  ds_uf :: string
  ds_wmo_code :: string
  ds_date :: "'d list"
  ds_hour_utc :: "nat list"
  ds_lat :: 'f
  ds_lon :: 'f
  ds_alt :: 'f
  ds_station :: string
  ds_date_of_foundation :: string

datatype store_outcome = Stored | StoreRaised bool

text \<open>The library functions the pipeline is given.\<close>

record ('d, 'n, 'f) library =
  py_codec :: "encoding \<Rightarrow> bytes \<Rightarrow> string option"
  py_float :: "string \<Rightarrow> 'f option"
  py_float_num :: "'n \<Rightarrow> 'f"
  pd_read_csv :: "encoding option \<Rightarrow> bytes \<Rightarrow> 'n table option"
  pd_astype_str :: "'n cell \<Rightarrow> string"
  pd_to_datetime :: "string \<Rightarrow> ('d \<times> nat) option"
  xr_store :: "('d, 'f) dataset \<Rightarrow> store_outcome"

text \<open>
  \<open>open(path, 'r', encoding=enc)\<close> and \<open>readlines\<close>, up to the splitting into lines:
  the text of the file, or \<open>None\<close> for \<open>UnicodeDecodeError\<close>. Under latin1 every byte
  string is a text.
\<close>

definition py_decode :: "('d, 'n, 'f) library \<Rightarrow> encoding \<Rightarrow> bytes \<Rightarrow> string option" where
  "py_decode lib enc bs =
     (if enc = Latin1 then Some (map char_of bs) else py_codec lib enc bs)"

subsection \<open>Reading the file\<close>

text \<open>
  The encoding loop: \<open>for enc in encodings: try: ... break; except UnicodeDecodeError:
  continue\<close>. \<open>Some\<close> is the \<open>break\<close>, with the encoding and the text read; \<open>None\<close> is a
  loop that ran out of candidates.
\<close>

fun try_encodings ::
  "(encoding \<Rightarrow> bytes \<Rightarrow> string option) \<Rightarrow> encoding list \<Rightarrow> bytes \<Rightarrow> (encoding \<times> string) option" where
  "try_encodings decode [] bs = None"
| "try_encodings decode (enc # encs) bs =
     (case decode enc bs of
        Some text \<Rightarrow> Some (enc, text)
      | None \<Rightarrow> try_encodings decode encs bs)"

text \<open>\<open>f.readlines()\<close> in text mode: the three line endings become a line feed, and
  each line keeps it.\<close>

fun translate_newlines :: "string \<Rightarrow> string" where
  "translate_newlines [] = []"
| "translate_newlines [c] = (if c = CHR 0x0D then [CHR 0x0A] else [c])"
| "translate_newlines (c # d # cs) =
     (if c = CHR 0x0D \<and> d = CHR 0x0A then CHR 0x0A # translate_newlines cs
      else if c = CHR 0x0D then CHR 0x0A # translate_newlines (d # cs)
      else c # translate_newlines (d # cs))"

fun split_lines :: "string \<Rightarrow> string list" where
  "split_lines [] = []"
| "split_lines (c # cs) =
     (if c = CHR 0x0A then [c] # split_lines cs
      else (case split_lines cs of [] \<Rightarrow> [[c]] | l # ls \<Rightarrow> (c # l) # ls))"

definition readlines :: "string \<Rightarrow> string list" where
  "readlines text = split_lines (translate_newlines text)"

text \<open>The characters below U+0100 that \<open>s.strip()\<close> removes.\<close>

definition whitespace :: string where
  "whitespace = [CHR 0x09, CHR 0x0A, CHR 0x0B, CHR 0x0C, CHR 0x0D, CHR 0x1C, CHR 0x1D,
     CHR 0x1E, CHR 0x1F, CHR 0x20, CHR 0x85, CHR 0xA0]"

text \<open>
  The metadata loop \<open>for i in range(8)\<close>; \<open>lines[i]\<close> raises \<open>IndexError\<close> past the end
  of the list.
\<close>

definition metadata_step ::
  "string list \<Rightarrow> error + (string \<rightharpoonup> string) \<Rightarrow> nat \<Rightarrow> error + (string \<rightharpoonup> string)" where
  "metadata_step lines acc i =
     (case acc of
        Inl e \<Rightarrow> Inl e
      | Inr metadata \<Rightarrow>
          if i < length lines
          then (let parts = split_char CHR '';'' (py_strip whitespace (lines ! i))
                in if length parts \<ge> 2
                   then Inr (metadata(py_replace '':'' [] (parts ! 0) \<mapsto> parts ! 1))
                   else Inr metadata)
          else Inl IndexError)"

definition extract_metadata :: "string list \<Rightarrow> error + (string \<rightharpoonup> string)" where
  "extract_metadata lines = foldl (metadata_step lines) (Inr Map.empty) [0..<8]"

text \<open>
  The branch \<open>debug = False\<close> of the pipeline, lines 327 to 345: cp1252, latin1, utf-8.
  A loop that runs out of candidates leaves \<open>encoding = None\<close> and \<open>lines = []\<close> and
  execution goes on to the metadata loop.
\<close>

definition read_silent ::
  "(encoding \<Rightarrow> bytes \<Rightarrow> string option) \<Rightarrow> bytes \<Rightarrow> error + (encoding option \<times> (string \<rightharpoonup> string))" where
  "read_silent decode bs =
     (let (encoding, lines) =
            (case try_encodings decode [Cp1252, Latin1, Utf8] bs of
               None \<Rightarrow> (None, [])
             | Some (enc, text) \<Rightarrow> (Some enc, readlines text))
      in case extract_metadata lines of
           Inl e \<Rightarrow> Inl e
         | Inr metadata \<Rightarrow> Inr (encoding, metadata))"

text \<open>
  \<open>debug_inmet_file\<close>, the branch \<open>debug = True\<close>: latin1, utf-8, and the \<open>else\<close> of the
  loop raises. The header line is \<open>lines[8]\<close>.
\<close>

definition debug_inmet_file ::
  "(encoding \<Rightarrow> bytes \<Rightarrow> string option) \<Rightarrow> bytes \<Rightarrow>
   error + (encoding option \<times> (string \<rightharpoonup> string) \<times> string list)" where
  "debug_inmet_file decode bs =
     (case try_encodings decode [Latin1, Utf8] bs of
        None \<Rightarrow> Inl EncodingFailure
      | Some (enc, text) \<Rightarrow>
          (let lines = readlines text
           in case extract_metadata lines of
                Inl e \<Rightarrow> Inl e
              | Inr metadata \<Rightarrow>
                  if 8 < length lines
                  then Inr (Some enc, metadata,
                            split_char CHR '';'' (py_strip whitespace (lines ! 8)))
                  else Inl IndexError))"

definition read_head ::
  "(encoding \<Rightarrow> bytes \<Rightarrow> string option) \<Rightarrow> bool \<Rightarrow> bytes \<Rightarrow>
   error + (encoding option \<times> (string \<rightharpoonup> string))" where
  "read_head decode debug bs =
     (if debug
      then (case debug_inmet_file decode bs of
              Inl e \<Rightarrow> Inl e
            | Inr (encoding, metadata, columns) \<Rightarrow> Inr (encoding, metadata))
      else read_silent decode bs)"

subsection \<open>Station identity\<close>

text \<open>\<open>d.get(key, dflt)\<close> on a dictionary of strings.\<close>

definition dict_get :: "(string \<rightharpoonup> string) \<Rightarrow> string \<Rightarrow> string \<Rightarrow> string" where
  "dict_get d key dflt = (case d key of None \<Rightarrow> dflt | Some v \<Rightarrow> v)"

text \<open>
  \<open>Path(p).stem\<close> on the final component of the path: the name up to its last dot,
  when that dot is neither the first nor the last character of the name.
\<close>

definition path_stem :: "string \<Rightarrow> string" where
  "path_stem name =
     (let after = length (takeWhile (\<lambda>c. c \<noteq> CHR ''.'') (rev name));
          i = length name - 1 - after
      in if CHR ''.'' \<in> set name \<and> 0 < i \<and> 0 < after then take i name else name)"

text \<open>
  Lines 347 to 361 of the pipeline: region, state, WMO code and station name, from the
  file name when it has five segments or more, from the metadata preamble otherwise.
\<close>

definition file_identity ::
  "string \<Rightarrow> (string \<rightharpoonup> string) \<Rightarrow> string \<times> string \<times> string \<times> string" where
  "file_identity csv_file_path metadata =
     (let filename = path_stem csv_file_path;
          file_parts = split_char CHR ''_'' filename
      in if length file_parts \<ge> 5
         then (file_parts ! 1, file_parts ! 2, file_parts ! 3, file_parts ! 4)
         else (dict_get metadata ''REGIAO'' ''Unknown'',
               dict_get metadata ''UF'' ''Unknown'',
               dict_get metadata ''CODIGO (WMO)'' ''Unknown'',
               dict_get metadata ''ESTACAO'' ''Unknown''))"

subsection \<open>Coordinates\<close>

text \<open>\<open>float(metadata[key].replace(',', '.'))\<close>: a missing key raises \<open>KeyError\<close>, a
  text that is not a number raises \<open>ValueError\<close>.\<close>

definition read_coordinate ::
  "(string \<Rightarrow> 'f option) \<Rightarrow> (string \<rightharpoonup> string) \<Rightarrow> string \<Rightarrow> error + 'f" where
  "read_coordinate to_float metadata key =
     (case metadata key of
        None \<Rightarrow> Inl (KeyError key)
      | Some v \<Rightarrow>
          (case to_float (py_replace '','' ''.'' v) of
             None \<Rightarrow> Inl FloatError
           | Some x \<Rightarrow> Inr x))"

definition read_coordinates ::
  "(string \<Rightarrow> 'f option) \<Rightarrow> (string \<rightharpoonup> string) \<Rightarrow> error + ('f \<times> 'f \<times> 'f)" where
  "read_coordinates to_float metadata =
     (case read_coordinate to_float metadata ''LATITUDE'' of
        Inl e \<Rightarrow> Inl e
      | Inr latitude \<Rightarrow>
          (case read_coordinate to_float metadata ''LONGITUDE'' of
             Inl e \<Rightarrow> Inl e
           | Inr longitude \<Rightarrow>
               (case read_coordinate to_float metadata ''ALTITUDE'' of
                  Inl e \<Rightarrow> Inl e
                | Inr altitude \<Rightarrow> Inr (latitude, longitude, altitude))))"

subsection \<open>The table\<close>

definition is_na :: "'n cell \<Rightarrow> bool" where
  "is_na c = (case c of NA \<Rightarrow> True | _ \<Rightarrow> False)"

definition cell_at :: "'n cell list \<Rightarrow> nat \<Rightarrow> 'n cell" where
  "cell_at row k = (if k < length row then row ! k else NA)"

text \<open>\<open>df.dropna(axis=1, how='all')\<close>: a column stays when some row has a value in it;
  a table without rows loses every column.\<close>

definition dropna_columns :: "'n table \<Rightarrow> 'n table" where
  "dropna_columns df =
     (let keep = filter (\<lambda>k. list_ex (\<lambda>row. \<not> is_na (cell_at row k)) (df_rows df))
                   [0..<length (df_columns df)]
      in \<lparr>df_columns = map (\<lambda>k. df_columns df ! k) keep,
          df_rows = map (\<lambda>row. map (cell_at row) keep) (df_rows df)\<rparr>)"

text \<open>\<open>sub in s\<close> on strings.\<close>

fun py_in :: "string \<Rightarrow> string \<Rightarrow> bool" where
  "py_in sub [] = (sub = [])"
| "py_in sub (c # cs) = (prefix sub (c # cs) \<or> py_in sub cs)"

text \<open>The renaming loop of lines 404 to 411, on one column name: the \<open>if\<close> on
  \<open>Data\<close> comes first.\<close>

definition rename_column :: "string \<Rightarrow> string" where
  "rename_column col =
     (if py_in ''Data'' col then ''date''
      else if py_in ''Hora'' col \<and> py_in ''UTC'' col then ''hour_utc''
      else col)"

text \<open>The check of line 417 on the renamed columns.\<close>

definition essential_columns_missing :: "string list \<Rightarrow> bool" where
  "essential_columns_missing cols = (''date'' \<notin> set cols \<or> ''hour_utc'' \<notin> set cols)"

text \<open>The columns that the renaming loop leaves under the name \<open>date\<close>, and under the
  name \<open>hour_utc\<close>.\<close>

definition takes_date_role :: "string \<Rightarrow> bool" where
  "takes_date_role col = (py_in ''Data'' col \<or> col = ''date'')"

definition takes_hour_role :: "string \<Rightarrow> bool" where
  "takes_hour_role col =
     ((py_in ''Hora'' col \<and> py_in ''UTC'' col) \<and> \<not> py_in ''Data'' col \<or> col = ''hour_utc'')"

text \<open>The two roles as the specification words them: a column whose name contains a
  date marker, a column whose name contains an hour marker and a UTC marker.\<close>

definition date_role_identified :: "string list \<Rightarrow> bool" where
  "date_role_identified header = list_ex (\<lambda>col. py_in ''Data'' col) header"

definition hour_role_identified :: "string list \<Rightarrow> bool" where
  "hour_role_identified header = list_ex (\<lambda>col. py_in ''Hora'' col \<and> py_in ''UTC'' col) header"

subsection \<open>Timestamps\<close>

text \<open>A row that survives \<open>dropna(subset=['datetime'])\<close>, with its \<open>date_only\<close> and its
  \<open>hour_only\<close>.\<close>

record ('d, 'n) observation =
  date_only :: 'd
  hour_only :: nat
  cells :: "'n cell list"

definition index_of :: "string \<Rightarrow> string list \<Rightarrow> nat" where
  "index_of x xs = length (takeWhile (\<lambda>y. y \<noteq> x) xs)"

text \<open>Lines 423 to 427: the hour text without its UTC marker.\<close>

definition hour_clean :: "string \<Rightarrow> string" where
  "hour_clean s = py_strip whitespace (py_replace ''UTC'' [] (py_replace '' UTC'' [] s))"

definition row_observation ::
  "('n cell \<Rightarrow> string) \<Rightarrow> (string \<Rightarrow> ('d \<times> nat) option) \<Rightarrow> string list \<Rightarrow> 'n cell list \<Rightarrow>
   ('d, 'n) observation option" where
  "row_observation cell_str to_datetime cols row =
     (let date_text = cell_str (cell_at row (index_of ''date'' cols));
          hour_text = hour_clean (cell_str (cell_at row (index_of ''hour_utc'' cols)))
      in case to_datetime (date_text @ '' '' @ hour_text) of
           None \<Rightarrow> None
         | Some (d, h) \<Rightarrow> Some \<lparr>date_only = d, hour_only = h, cells = row\<rparr>)"

definition surviving_rows ::
  "('n cell \<Rightarrow> string) \<Rightarrow> (string \<Rightarrow> ('d \<times> nat) option) \<Rightarrow> string list \<Rightarrow> 'n cell list list \<Rightarrow>
   ('d, 'n) observation list" where
  "surviving_rows cell_str to_datetime cols rows =
     List.map_filter (row_observation cell_str to_datetime cols) rows"

subsection \<open>The grids\<close>

definition np_full :: "nat list \<Rightarrow> 'a \<Rightarrow> 'a ndarray" where
  "np_full shp v = \<lparr>nd_shape = shp, nd_data = replicate (prod_list shp) v\<rparr>"

text \<open>\<open>m[i, j] = v\<close> on an array of two axes, with \<open>i\<close> and \<open>j\<close> in range.\<close>

definition set_cell :: "'a ndarray \<Rightarrow> nat \<Rightarrow> nat \<Rightarrow> 'a \<Rightarrow> 'a ndarray" where
  "set_cell m i j v = m\<lparr>nd_data := (nd_data m)[i * (nd_shape m ! 1) + j := v]\<rparr>"

definition get_cell :: "'a ndarray \<Rightarrow> nat \<Rightarrow> nat \<Rightarrow> 'a" where
  "get_cell m i j = nd_data m ! (i * (nd_shape m ! 1) + j)"

text \<open>\<open>m.reshape(shp)\<close>; the sizes agree wherever the source calls it.\<close>

definition reshape :: "'a ndarray \<Rightarrow> nat list \<Rightarrow> 'a ndarray" where
  "reshape m shp = m\<lparr>nd_shape := shp\<rparr>"

definition excluded_cols :: "string list" where
  "excluded_cols = [''date'', ''hour_utc'', ''hour_clean'', ''datetime'', ''date_only'', ''hour_only'']"

definition lookup_cell :: "string list \<Rightarrow> 'n cell list \<Rightarrow> string \<Rightarrow> 'n cell" where
  "lookup_cell cols row var = (case map_of (zip cols row) var of None \<Rightarrow> NA | Some c \<Rightarrow> c)"

text \<open>
  Lines 481 to 485 on one value: \<open>float\<close> of a loaded number, \<open>float\<close> of a text when
  it accepts it; \<open>None\<close> leaves the cell as it is, because the value is missing, is the
  empty text, or \<open>float\<close> raises.
\<close>

definition cell_float :: "('d, 'n, 'f) library \<Rightarrow> 'n cell \<Rightarrow> 'f option" where
  "cell_float lib v =
     (case v of
        NA \<Rightarrow> None
      | Num x \<Rightarrow> Some (py_float_num lib x)
      | Str s \<Rightarrow> if s = [] then None else py_float lib s)"

text \<open>
  The body of the two nested loops for the cell \<open>(i, j)\<close>: \<open>mask.any()\<close> is whether a
  surviving row has that date and hour, and \<open>.iloc[0]\<close> takes the first of them. A cell
  of a grid is \<open>None\<close> for \<open>NaN\<close>.
\<close>

definition fill_cell ::
  "('d, 'n, 'f) library \<Rightarrow> ('d, 'n) observation list \<Rightarrow> string list \<Rightarrow> string \<Rightarrow>
   'd list \<Rightarrow> nat list \<Rightarrow> nat \<Rightarrow> 'f option ndarray \<Rightarrow> nat \<Rightarrow> 'f option ndarray" where
  "fill_cell lib obs cols var dates hours i var_matrix j =
     (case find (\<lambda>r. date_only r = dates ! i \<and> hour_only r = hours ! j) obs of
        None \<Rightarrow> var_matrix
      | Some r \<Rightarrow>
          (case cell_float lib (lookup_cell cols (cells r) var) of
             None \<Rightarrow> var_matrix
           | Some x \<Rightarrow> set_cell var_matrix i j (Some x)))"

definition fill_row ::
  "('d, 'n, 'f) library \<Rightarrow> ('d, 'n) observation list \<Rightarrow> string list \<Rightarrow> string \<Rightarrow>
   'd list \<Rightarrow> nat list \<Rightarrow> 'f option ndarray \<Rightarrow> nat \<Rightarrow> 'f option ndarray" where
  "fill_row lib obs cols var dates hours var_matrix i =
     foldl (fill_cell lib obs cols var dates hours i) var_matrix [0..<length hours]"

definition var_matrix_of ::
  "('d, 'n, 'f) library \<Rightarrow> ('d, 'n) observation list \<Rightarrow> string list \<Rightarrow> string \<Rightarrow>
   'd list \<Rightarrow> nat list \<Rightarrow> 'f option ndarray" where
  "var_matrix_of lib obs cols var dates hours =
     foldl (fill_row lib obs cols var dates hours)
       (np_full [length dates, length hours] None) [0..<length dates]"

text \<open>What a grid is to hold at a date and an hour: \<open>float\<close> of the value in the first
  surviving row with that date and hour, when there is such a row and \<open>float\<close> accepts
  its value.\<close>

definition grid_value ::
  "('d, 'n, 'f) library \<Rightarrow> ('d, 'n) observation list \<Rightarrow> string list \<Rightarrow> string \<Rightarrow> 'd \<Rightarrow> nat \<Rightarrow>
   'f option" where
  "grid_value lib obs cols var d h =
     (case find (\<lambda>r. date_only r = d \<and> hour_only r = h) obs of
        None \<Rightarrow> None
      | Some r \<Rightarrow> cell_float lib (lookup_cell cols (cells r) var))"

definition dims :: "string list" where
  "dims = [''region'', ''uf'', ''wmo_code'', ''date'', ''hour_utc'', ''lat'', ''lon'', ''alt'']"

text \<open>The loop \<open>for var in met_variables\<close>: the dictionary \<open>data_vars\<close> before its names
  are cleaned.\<close>

definition build_data_vars ::
  "('d, 'n, 'f) library \<Rightarrow> ('d, 'n) observation list \<Rightarrow> string list \<Rightarrow>
   'd list \<Rightarrow> nat list \<Rightarrow> string list \<Rightarrow> (string \<times> string list \<times> 'f option ndarray) list" where
  "build_data_vars lib obs cols dates hours met_variables =
     foldl (\<lambda>data_vars var.
              AList.update var
                (dims, reshape (var_matrix_of lib obs cols var dates hours)
                         [1, 1, 1, length dates, length hours, 1, 1, 1])
                data_vars)
       [] met_variables"

subsection \<open>The whole pipeline\<close>

text \<open>The columns of the loaded table after \<open>dropna\<close> and the renaming, and the rows
  that keep a timestamp.\<close>

definition renamed_columns :: "'n table \<Rightarrow> string list" where
  "renamed_columns df = map rename_column (df_columns (dropna_columns df))"

definition observations ::
  "('d, 'n, 'f) library \<Rightarrow> 'n table \<Rightarrow> ('d, 'n) observation list" where
  "observations lib df =
     surviving_rows (pd_astype_str lib) (pd_to_datetime lib) (renamed_columns df)
       (df_rows (dropna_columns df))"

text \<open>
  Lines 400 to 543, from the loaded table on. Two columns renamed to \<open>date\<close>, or two to
  \<open>hour_utc\<close>, make \<open>df['date']\<close> or \<open>df['hour_utc']\<close> a table and the date arithmetic
  raise inside pandas. With \<open>debug\<close> the source prints \<open>dates[0]\<close>, which raises on an
  empty axis. The output path is always given, as in the batch call, so that
  \<open>to_netcdf\<close> is the last step.
\<close>

definition process_table ::
  "('d::linorder, 'n, 'f) library \<Rightarrow> bool \<Rightarrow> string \<times> string \<times> string \<times> string \<Rightarrow>
   'f \<times> 'f \<times> 'f \<Rightarrow> (string \<rightharpoonup> string) \<Rightarrow> 'n table \<Rightarrow> error + ('d, 'f) dataset" where
  "process_table lib debug ident coords metadata df =
     (let cols = renamed_columns df
      in if essential_columns_missing cols then Inl MissingEssentialColumns
         else if count_list cols ''date'' > 1 \<or> count_list cols ''hour_utc'' > 1
         then Inl PandasError
         else
           (let obs = observations lib df;
                dates = sort (remdups (map date_only obs));
                hours = sort (remdups (map hour_only obs))
            in if debug \<and> dates = [] then Inl IndexError
               else
                 (let met_variables = filter (\<lambda>col. col \<notin> set excluded_cols) cols;
                      data_vars = build_data_vars lib obs cols dates hours met_variables;
                      data_vars = clean_variable_names data_vars;
                      (region, uf, wmo_code, station_name) = ident;
                      (latitude, longitude, altitude) = coords;
                      ds = \<lparr>ds_data_vars = data_vars, ds_region = region, ds_uf = uf,
                            ds_wmo_code = wmo_code, ds_date = dates, ds_hour_utc = hours,
                            ds_lat = latitude, ds_lon = longitude, ds_alt = altitude,
                            ds_station = station_name,
                            ds_date_of_foundation =
                              dict_get metadata ''DATA DE FUNDACAO'' ''Unknown''\<rparr>
                  in case xr_store lib ds of
                       Stored \<Rightarrow> Inr ds
                     | StoreRaised left \<Rightarrow> Inl (StoreError left))))"

text \<open>\<open>parse_inmet_csv_to_netcdf_robust\<close> on the file named \<open>csv_file_path\<close> with the
  contents \<open>bs\<close>.\<close>

definition parse_inmet_csv_to_netcdf_robust ::
  "('d::linorder, 'n, 'f) library \<Rightarrow> bool \<Rightarrow> string \<Rightarrow> bytes \<Rightarrow> error + ('d, 'f) dataset" where
  "parse_inmet_csv_to_netcdf_robust lib debug csv_file_path bs =
     (case read_head (py_decode lib) debug bs of
        Inl e \<Rightarrow> Inl e
      | Inr (encoding, metadata) \<Rightarrow>
          (let ident = file_identity csv_file_path metadata
           in case read_coordinates (py_float lib) metadata of
                Inl e \<Rightarrow> Inl e
              | Inr coords \<Rightarrow>
                  (case pd_read_csv lib encoding bs of
                     None \<Rightarrow> Inl PandasError
                   | Some df \<Rightarrow> process_table lib debug ident coords metadata df)))"

text \<open>
  The run the batch loop makes on one file: the pipeline without \<open>debug\<close> on the
  contents of the file, an exception coming with whether the output file is left
  behind.
\<close>

definition run_pipeline ::
  "('d::linorder, 'n, 'f) library \<Rightarrow> (string \<Rightarrow> bytes) \<Rightarrow> string \<Rightarrow>
   (error \<times> bool) + ('d, 'f) dataset" where
  "run_pipeline lib contents csv_file_path =
     (case parse_inmet_csv_to_netcdf_robust lib False csv_file_path (contents csv_file_path) of
        Inl e \<Rightarrow> Inl (e, e = StoreError True)
      | Inr ds \<Rightarrow> Inr ds)"

subsection \<open>A small station file\<close>

text \<open>
  A library for concrete runs. Numbers are integers counting hundredths, dates are day
  numbers; \<open>float\<close> and \<open>to_datetime\<close> know only the texts listed. Cp1252 and utf-8 read
  a file of ASCII bytes as latin1 does; of the other files the examples use only ones
  that hold the byte 0x81, on which both raise, and this library lets them raise on
  every file with a byte above 0x7F. \<open>read_csv\<close> gives the table that comes with the
  library: the table of the file of the run.
\<close>

definition example_codec :: "encoding \<Rightarrow> bytes \<Rightarrow> string option" where
  "example_codec enc bs =
     (if list_all (\<lambda>b. b < 128) bs then Some (map char_of bs) else None)"

definition example_library :: "int table \<Rightarrow> (nat, int, int) library" where
  "example_library df =
     \<lparr>py_codec = example_codec,
      py_float = map_of [(''-15.78'', -1578), (''-47.92'', -4792), (''1160.96'', 116096),
                         (''7'', 700)],
      py_float_num = (\<lambda>x. x),
      pd_read_csv = (\<lambda>enc bs. Some df),
      pd_astype_str = (\<lambda>c. case c of Str s \<Rightarrow> s | _ \<Rightarrow> ''nan''),
      pd_to_datetime = map_of [(''2024/01/01 0000'', (1, 0)), (''2024/01/01 0100'', (1, 1)),
                               (''2024/01/02 0000'', (2, 0)), (''2024/01/02 0100'', (2, 1))],
      xr_store = (\<lambda>ds. Stored)\<rparr>"

text \<open>The bytes of a station file: eight lines of preamble, then the header line and
  the data lines.\<close>

definition example_preamble :: string where
  "example_preamble =
     ''REGIAO:;CO\<newline>UF:;DF\<newline>ESTACAO:;BRASILIA\<newline>CODIGO (WMO):;A001\<newline>'' @
     ''LATITUDE:;-15,78\<newline>LONGITUDE:;-47,92\<newline>ALTITUDE:;1160,96\<newline>'' @
     ''DATA DE FUNDACAO:;07/05/00\<newline>''"

definition station_file :: "string \<Rightarrow> bytes" where
  "station_file table_lines = map of_char (example_preamble @ table_lines)"

text \<open>
  A file of two days and two hours, and the table \<open>read_csv\<close> gives for it. The
  temperature column holds numbers and one empty field; the wind column holds \<open>x\<close>, so
  that it is loaded as text in every row; the last column is empty; the last row has
  no timestamp.
\<close>

definition example_file :: bytes where
  "example_file = station_file
     (''Data;Hora UTC;TEMPERATURA (C);VENTO, VELOCIDADE (m/s);\<newline>'' @
      ''2024/01/01;0000 UTC;25,5;x;\<newline>'' @
      ''2024/01/01;0100 UTC;;3,5;\<newline>'' @
      ''2024/01/02;0000 UTC;24,1;7;\<newline>'' @
      ''2024/01/02;0100 UTC;23,8;;\<newline>'' @
      ''total;;1;;\<newline>'')"

definition example_table :: "int table" where
  "example_table =
     \<lparr>df_columns = [''Data'', ''Hora UTC'', ''TEMPERATURA (C)'', ''VENTO, VELOCIDADE (m/s)'',
                    ''Unnamed: 4''],
      df_rows = [[Str ''2024/01/01'', Str ''0000 UTC'', Num 2550, Str ''x'', NA],
                 [Str ''2024/01/01'', Str ''0100 UTC'', NA, Str ''3,5'', NA],
                 [Str ''2024/01/02'', Str ''0000 UTC'', Num 2410, Str ''7'', NA],
                 [Str ''2024/01/02'', Str ''0100 UTC'', Num 2380, NA, NA],
                 [Str ''total'', NA, Num 100, NA, NA]]\<rparr>"

text \<open>A file whose header has a date column and no hour column, and a file with two
  rows for the same date and hour, each with its table.\<close>

definition date_only_file :: bytes where
  "date_only_file = station_file
     (''Data;TEMPERATURA (C)\<newline>'' @
      ''2024/01/01;25,5\<newline>'' @
      ''2024/01/02;24,1\<newline>'')"

definition date_only_table :: "int table" where
  "date_only_table =
     \<lparr>df_columns = [''Data'', ''TEMPERATURA (C)''],
      df_rows = [[Str ''2024/01/01'', Num 2550], [Str ''2024/01/02'', Num 2410]]\<rparr>"

definition repeated_hour_file :: bytes where
  "repeated_hour_file = station_file
     (''Data;Hora UTC;TEMPERATURA (C)\<newline>'' @
      ''2024/01/01;0000 UTC;25,5\<newline>'' @
      ''2024/01/01;0000 UTC;24,1\<newline>'')"

definition repeated_hour_table :: "int table" where
  "repeated_hour_table =
     \<lparr>df_columns = [''Data'', ''Hora UTC'', ''TEMPERATURA (C)''],
      df_rows = [[Str ''2024/01/01'', Str ''0000 UTC'', Num 2550],
                 [Str ''2024/01/01'', Str ''0000 UTC'', Num 2410]]\<rparr>"
section \<open>Properties of the sanitizer\<close>


lemma replace_ne_single: "replace_ne [a] new s = concat (map (\<lambda>c. if c = a then new else [c]) s)"
  by (induction s) auto

lemma py_replace_single: "py_replace [a] new s = concat (map (\<lambda>c. if c = a then new else [c]) s)"
  by (simp add: py_replace_def replace_ne_single)

lemma py_replace_absent: "a \<notin> set s \<Longrightarrow> py_replace [a] new s = s"
  by (induction s) (auto simp: py_replace_single)

lemma set_py_replace: "set (py_replace [a] new s) \<subseteq> (set s - {a}) \<union> set new"
  by (auto simp: py_replace_single split: if_splits)

lemma collapse_hd: "\<exists>r. collapse_underscores (d # cs) = d # r"
  by (induction cs arbitrary: d) auto

lemma no_double_collapse: "no_double (collapse_underscores s)"
proof (induction s rule: collapse_underscores.induct)
  case (3 c d cs)
  obtain r where r: "collapse_underscores (d # cs) = d # r"
    using collapse_hd by blast
  with 3 show ?case by auto
qed simp_all

lemma collapse_fix: "no_double s \<Longrightarrow> collapse_underscores s = s"
  by (induction s rule: no_double.induct) auto

lemma set_collapse: "set (collapse_underscores s) \<subseteq> set s"
  by (induction s rule: collapse_underscores.induct) auto

lemma no_double_Cons: "no_double (x # xs) \<Longrightarrow> no_double xs"
  by (cases xs) auto

lemma no_double_append: "no_double (xs @ ys) \<Longrightarrow> no_double xs \<and> no_double ys"
proof (induction xs rule: no_double.induct)
  case 1 then show ?case by simp
next
  case (2 c) then show ?case using no_double_Cons by auto
next
  case (3 c d cs) then show ?case by auto
qed

lemma py_strip_infix: "\<exists>a b. s = a @ py_strip chars s @ b"
proof -
  let ?p = "\<lambda>c. c \<in> set chars"
  let ?m = "dropWhile ?p s"
  have 1: "s = takeWhile ?p s @ ?m" by simp
  have "rev ?m = takeWhile ?p (rev ?m) @ dropWhile ?p (rev ?m)" by simp
  then have "?m = rev (dropWhile ?p (rev ?m)) @ rev (takeWhile ?p (rev ?m))"
    by (metis rev_append rev_rev_ident)
  then have "s = takeWhile ?p s @ py_strip chars s @ rev (takeWhile ?p (rev ?m))"
    unfolding py_strip_def using 1 by (metis)
  then show ?thesis by blast
qed

lemma set_py_strip: "set (py_strip chars s) \<subseteq> set s"
  using py_strip_infix[of s chars] by (metis Un_upper1 Un_upper2 set_append subset_trans)

lemma no_double_strip: "no_double s \<Longrightarrow> no_double (py_strip chars s)"
  using py_strip_infix[of s chars] no_double_append by metis

lemma dropWhile_hd_fix: "s \<noteq> [] \<Longrightarrow> \<not> P (hd s) \<Longrightarrow> dropWhile P s = s"
  by (cases s) auto

lemma py_strip_fix:
  "s \<noteq> [] \<Longrightarrow> hd s \<notin> set chars \<Longrightarrow> last s \<notin> set chars \<Longrightarrow> py_strip chars s = s"
  by (simp add: py_strip_def dropWhile_hd_fix hd_rev)

lemma last_dropWhile: "dropWhile P xs \<noteq> [] \<Longrightarrow> last (dropWhile P xs) = last xs"
  by (induction xs) (auto split: if_splits)

lemma py_strip_ends:
  assumes "py_strip chars s \<noteq> []"
  shows "hd (py_strip chars s) \<notin> set chars \<and> last (py_strip chars s) \<notin> set chars"
proof -
  let ?p = "\<lambda>c. c \<in> set chars"
  let ?m = "dropWhile ?p s"
  let ?r = "dropWhile ?p (rev ?m)"
  have r: "?r \<noteq> []" using assms by (simp add: py_strip_def)
  have m: "?m \<noteq> []"
  proof
    assume "?m = []"
    then have "?r = []" by (simp only: rev.simps dropWhile.simps)
    with r show False by blast
  qed
  have "\<not> ?p (hd ?r)" using r by (rule hd_dropWhile)
  then have l: "last (py_strip chars s) \<notin> set chars"
    using r by (simp add: py_strip_def last_rev)
  have "last ?r = last (rev ?m)" using r by (rule last_dropWhile)
  also have "\<dots> = hd ?m" using m by (simp add: last_rev)
  finally have "hd (py_strip chars s) = hd ?m"
    using r by (simp add: py_strip_def hd_rev)
  moreover have "\<not> ?p (hd ?m)" using m by (rule hd_dropWhile)
  ultimately show ?thesis using l by simp
qed

lemma repl_gone: "a \<notin> set new \<Longrightarrow> a \<notin> set (py_replace [a] new s)"
  using set_py_replace[of a new s] by auto

lemma repl_keep: "b \<notin> set s \<Longrightarrow> b \<notin> set new \<Longrightarrow> b \<notin> set (py_replace [a] new s)"
  using set_py_replace[of a new s] by auto

lemma chain_clean: "set (apply_substitutions s) \<inter> replaced_chars = {}"
  unfolding apply_substitutions_def Let_def replaced_chars_def
  by (simp add: repl_gone repl_keep)

lemma chain_fix: "set s \<inter> replaced_chars = {} \<Longrightarrow> apply_substitutions s = s"
  unfolding apply_substitutions_def Let_def replaced_chars_def
  by (simp add: py_replace_absent)

lemma repl_mem: "x \<in> set (py_replace [a] new s) \<Longrightarrow> x \<in> set s \<or> x \<in> set new"
  using set_py_replace[of a new s] by auto

lemma chain_chars: "x \<in> set (apply_substitutions s) \<Longrightarrow> x \<in> set s \<or> x \<in> set ''_perdg23''"
  unfolding apply_substitutions_def Let_def
  by (auto dest!: repl_mem)

lemma sanitized_fix: "sanitized s \<Longrightarrow> clean_name s = s"
  by (simp add: sanitized_def clean_name_def chain_fix collapse_fix py_strip_fix)

lemma no_double_var: "no_double t \<Longrightarrow> t \<noteq> [] \<Longrightarrow> hd t \<noteq> CHR ''_'' \<Longrightarrow> no_double (''var_'' @ t)"
  by (cases t) auto

lemma clean_name_sanitized: "sanitized (clean_name s)"
proof -
  let ?t = "py_strip ''_'' (collapse_underscores (apply_substitutions s))"
  have t1: "set ?t \<inter> replaced_chars = {}"
    using chain_clean[of s] set_collapse set_py_strip by fast
  have t2: "no_double ?t" by (simp add: no_double_collapse no_double_strip)
  have t3: "?t \<noteq> [] \<Longrightarrow> hd ?t \<noteq> CHR ''_'' \<and> last ?t \<noteq> CHR ''_''"
    using py_strip_ends[of "''_''"] by simp
  show ?thesis
  proof (cases "?t = []")
    case True
    then have "clean_name s = ''unknown_variable''" by (simp add: clean_name_def)
    then show ?thesis by (simp add: sanitized_def replaced_chars_def py_isdigit_def)
  next
    case False
    show ?thesis
    proof (cases "py_isdigit (hd ?t)")
      case True
      then have c: "clean_name s = ''var_'' @ ?t" using False by (simp add: clean_name_def)
      have "no_double (''var_'' @ ?t)" using no_double_var t2 t3 False by blast
      moreover have "set (''var_'' @ ?t) \<inter> replaced_chars = {}"
        using t1 by (auto simp: replaced_chars_def)
      ultimately show ?thesis using c t3 False
        by (simp add: sanitized_def py_isdigit_def)
    next
      case d: False
      then have c: "clean_name s = ?t" using False by (simp add: clean_name_def)
      show ?thesis using c t1 t2 t3 False d by (simp add: sanitized_def)
    qed
  qed
qed

lemma clean_name_idem: "clean_name (clean_name s) = clean_name s"
  by (rule sanitized_fix[OF clean_name_sanitized])


lemma clean_name_chars:
  "x \<in> set (clean_name s) \<Longrightarrow> x \<in> set s \<or> x \<in> set ''_perdg23vaunknowible''"
proof -
  let ?t = "py_strip ''_'' (collapse_underscores (apply_substitutions s))"
  assume x: "x \<in> set (clean_name s)"
  have t: "y \<in> set ?t \<Longrightarrow> y \<in> set s \<or> y \<in> set ''_perdg23''" for y
    using chain_chars[of y s] set_collapse set_py_strip by blast
  have "x \<in> set ?t \<or> x \<in> set ''var_'' \<or> x \<in> set ''unknown_variable''"
    using x by (auto simp: clean_name_def Let_def split: if_splits)
  then show ?thesis using t[of x] by auto
qed

lemma ident_fixed: "x \<in> set ''_perdg23vaunknowible'' \<Longrightarrow> ident_char x"
  by (auto simp: ident_char_def ident_start_def)

lemma clean_name_identifier:
  assumes "plain_label s"
  shows "is_identifier (clean_name s)"
proof -
  have assms': "\<forall>c\<in>set s. ident_char c \<or> c \<in> replaced_chars"
    using assms by (simp add: plain_label_def list_all_iff)
  have san: "sanitized (clean_name s)" by (rule clean_name_sanitized)
  have all: "ident_char x" if "x \<in> set (clean_name s)" for x
  proof -
    from san that have "x \<notin> replaced_chars" by (auto simp: sanitized_def)
    then show ?thesis using clean_name_chars[OF that] assms' ident_fixed by blast
  qed
  obtain c cs where c: "clean_name s = c # cs"
    using san by (cases "clean_name s") (auto simp: sanitized_def)
  have "\<not> py_isdigit c" using san c by (simp add: sanitized_def)
  moreover have "ident_char c" using all c by simp
  ultimately have "ident_start c" by (auto simp: ident_char_def py_isdigit_def)
  moreover have "list_all ident_char cs" using all c by (simp add: list_all_iff)
  ultimately show ?thesis by (simp add: is_identifier_def c)
qed

text \<open>
  Claim C4, as amended. Applying the loop body to a name it produced returns that name
  unchanged, for every label. The produced name has the identifier shape
  \<^verbatim>\<open>^[A-Za-z_][A-Za-z0-9_]*$\<close> when every character of the label is an ASCII letter,
  an ASCII digit, an underscore or one of the replaced characters; any other character
  is kept as it is.
\<close>

theorem clean_name_idempotent_identifier:
  "clean_name (clean_name s) = clean_name s \<and>
   (plain_label s \<longrightarrow> is_identifier (clean_name s))"
  using clean_name_idem clean_name_identifier by blast

theorem clean_name_idempotent_identifier_witness:
  "plain_label (''RADIACAO GLOBAL (Kj/m'' @ [CHR 0xB2] @ '')'') \<and>
   clean_name (''RADIACAO GLOBAL (Kj/m'' @ [CHR 0xB2] @ '')'') = ''RADIACAO_GLOBAL_Kj_per_m2'' \<and>
   is_identifier (clean_name (''RADIACAO GLOBAL (Kj/m'' @ [CHR 0xB2] @ '')'')) \<and>
   clean_name (clean_name (''RADIACAO GLOBAL (Kj/m'' @ [CHR 0xB2] @ '')'')) =
     clean_name (''RADIACAO GLOBAL (Kj/m'' @ [CHR 0xB2] @ '')'')"
proof -
  have h: "plain_label (''RADIACAO GLOBAL (Kj/m'' @ [CHR 0xB2] @ '')'')"
    by (simp add: plain_label_def ident_char_def ident_start_def replaced_chars_def)
  have e: "clean_name (''RADIACAO GLOBAL (Kj/m'' @ [CHR 0xB2] @ '')'') = ''RADIACAO_GLOBAL_Kj_per_m2''"
    by code_simp
  show ?thesis
    using h e clean_name_idempotent_identifier [of "''RADIACAO GLOBAL (Kj/m'' @ [CHR 0xB2] @ '')''"]
    by blast
qed

text \<open>
  The identifier shape fails at a label of the station files: the percent sign is not
  among the replaced characters and stays in the name, here
  \<open>UMIDADE_RELATIVA_DO_AR_HORARIA_%\<close>.
\<close>

theorem clean_name_identifier_counterexample:
  "\<not> is_identifier (clean_name ''UMIDADE RELATIVA DO AR, HORARIA (%)'')"
  by code_simp

lemma update_fresh: "k \<notin> fst ` set al \<Longrightarrow> AList.update k v al = al @ [(k, v)]"
  by (induction al) auto

lemma foldl_update_distinct:
  "distinct (map fst acc @ map (clean_name \<circ> fst) dv) \<Longrightarrow>
   foldl (\<lambda>cleaned_vars (var_name, var_data).
              AList.update (clean_name var_name) var_data cleaned_vars) acc dv
   = acc @ map (\<lambda>(k, v). (clean_name k, v)) dv"
proof (induction dv arbitrary: acc)
  case Nil then show ?case by simp
next
  case (Cons p dv)
  obtain k v where p: "p = (k, v)" by (cases p)
  have fresh: "clean_name k \<notin> fst ` set acc" using Cons.prems p by auto
  have "distinct (map fst (acc @ [(clean_name k, v)]) @ map (clean_name \<circ> fst) dv)"
    using Cons.prems p by (auto simp: comp_def)
  from Cons.IH[OF this] show ?case using fresh p by (simp add: update_fresh)
qed

lemma foldl_update_map_of:
  "map_of (foldl (\<lambda>cleaned_vars (var_name, var_data).
              AList.update (clean_name var_name) var_data cleaned_vars) acc dv)
   = map_of (rev (map (\<lambda>(k, v). (clean_name k, v)) dv) @ acc)"
proof (induction dv arbitrary: acc)
  case Nil then show ?case by simp
next
  case (Cons p dv)
  obtain k v where p: "p = (k, v)" by (cases p)
  show ?case by (simp add: p Cons.IH AList.update_conv' map_add_def fun_eq_iff split: option.splits)
qed

text \<open>
  Claim C1, as amended. \<open>clean_variable_names\<close> stores every variable under its
  sanitized name and applies no suffix: looking a name up in the result gives the data
  of the last label that sanitizes to it. When the sanitized names of the labels are
  pairwise distinct, the result holds every variable's data, in the order of the input.
\<close>

theorem clean_variable_names_last_wins:
  "map_of (clean_variable_names data_vars) =
     map_of (rev (map (\<lambda>(k, v). (clean_name k, v)) data_vars)) \<and>
   (distinct (map (clean_name \<circ> fst) data_vars) \<longrightarrow>
     clean_variable_names data_vars = map (\<lambda>(k, v). (clean_name k, v)) data_vars)"
  using foldl_update_map_of[of "[]" data_vars] foldl_update_distinct[of "[]" data_vars]
  by (simp add: clean_variable_names_def)

theorem clean_variable_names_last_wins_witness:
  "distinct (map (clean_name \<circ> fst) [(''TEMP (C)'', 1::nat), (''UMIDADE'', 2)]) \<and>
   clean_variable_names [(''TEMP (C)'', 1::nat), (''UMIDADE'', 2)] =
     [(''TEMP_C'', 1), (''UMIDADE'', 2)]"
proof -
  have c: "clean_name ''TEMP (C)'' = ''TEMP_C''" "clean_name ''UMIDADE'' = ''UMIDADE''"
    by code_simp+
  have d: "distinct (map (clean_name \<circ> fst) [(''TEMP (C)'', 1::nat), (''UMIDADE'', 2)])"
    by (simp add: c)
  show ?thesis
    using d clean_variable_names_last_wins [of "[(''TEMP (C)'', 1::nat), (''UMIDADE'', 2)]"]
    by (simp add: c)
qed

text \<open>
  Two distinct labels that sanitize to the same name are merged: the result has one
  entry, with the data of the second label, and the data of the first is gone.
\<close>

theorem clean_variable_names_merge_counterexample:
  "clean_variable_names [(''TEMP (C)'', 1::nat), (''TEMP_C'', 2)] = [(''TEMP_C'', 2)]"
  by code_simp

section \<open>Properties of the batch orchestrator\<close>

lemma convert_file_skip:
  "netcdf_filename f \<in> netcdf st \<Longrightarrow> skip_existing \<Longrightarrow>
   convert_file parse skip_existing st f =
     st\<lparr>skipped := skipped st @ [f], saved := saved st @ [netcdf_filename f]\<rparr>"
  by (simp add: convert_file_def)

lemma convert_file_fail:
  "\<not> (netcdf_filename f \<in> netcdf st \<and> skip_existing) \<Longrightarrow> parse f = Inl (e, left) \<Longrightarrow>
   convert_file parse skip_existing st f =
     st\<lparr>failed := failed st @ [f],
        netcdf := (if left then insert (netcdf_filename f) (netcdf st) else netcdf st)\<rparr>"
  by (auto simp: convert_file_def Let_def)

lemma convert_file_ok:
  "\<not> (netcdf_filename f \<in> netcdf st \<and> skip_existing) \<Longrightarrow> parse f = Inr d \<Longrightarrow>
   convert_file parse skip_existing st f =
     st\<lparr>netcdf := insert (netcdf_filename f) (netcdf st),
        saved := saved st @ [netcdf_filename f], converted := converted st + 1\<rparr>"
  by (auto simp: convert_file_def Let_def)

lemma convert_loop_Nil [simp]: "convert_loop parse sk [] st = st"
  by (simp add: convert_loop_def)

lemma convert_loop_Cons [simp]:
  "convert_loop parse sk (f # fs) st = convert_loop parse sk fs (convert_file parse sk st f)"
  by (simp add: convert_loop_def)

lemma convert_loop_append:
  "convert_loop parse sk (xs @ ys) st = convert_loop parse sk ys (convert_loop parse sk xs st)"
  by (simp add: convert_loop_def)

lemma convert_file_failed_mono: "set (failed st) \<subseteq> set (failed (convert_file parse sk st f))"
  by (auto simp: convert_file_def Let_def split: sum.splits prod.splits)

lemma convert_loop_failed_mono: "set (failed st) \<subseteq> set (failed (convert_loop parse sk fs st))"
proof (induction fs arbitrary: st)
  case Nil show ?case by simp
next
  case (Cons f fs)
  have "set (failed st) \<subseteq> set (failed (convert_file parse sk st f))"
    by (rule convert_file_failed_mono)
  also have "\<dots> \<subseteq> set (failed (convert_loop parse sk fs (convert_file parse sk st f)))"
    by (rule Cons.IH)
  finally show ?case by simp
qed

lemma convert_file_count:
  "converted (convert_file parse sk st f) + length (skipped (convert_file parse sk st f)) +
     length (failed (convert_file parse sk st f)) =
   converted st + length (skipped st) + length (failed st) + 1"
  by (simp add: convert_file_def Let_def split: sum.splits prod.splits)

lemma convert_loop_count:
  "converted (convert_loop parse sk fs st) + length (skipped (convert_loop parse sk fs st)) +
     length (failed (convert_loop parse sk fs st)) =
   converted st + length (skipped st) + length (failed st) + length fs"
proof (induction fs arbitrary: st)
  case Nil show ?case by simp
next
  case (Cons f fs)
  show ?case using Cons.IH[of "convert_file parse sk st f"] convert_file_count[of parse sk st f]
    by simp
qed

lemma filtered_files_Nil [simp]: "filtered_files upper region uf wmo_code all_files [] = []"
  by (simp add: filtered_files_def)

lemma convert_result:
  assumes "folder_exists w"
    and "filtered_files upper region uf wmo_code all_files (csv_files w) = sel" and "sel \<noteq> []"
  shows "convert_csvs_to_netcdf upper parse w region uf wmo_code all_files skip_existing =
    (let st = convert_loop parse skip_existing sel (start_progress w)
     in (\<lparr>success = (converted st + length (skipped st) > 0),
          converted_files = converted st,
          skipped_files = length (skipped st),
          total_files_found = length (csv_files w),
          saved_paths = saved st,
          failed_files = failed st\<rparr>,
         w\<lparr>netcdf_files := netcdf st\<rparr>))"
proof -
  have "csv_files w \<noteq> []" using assms(2,3) by auto
  then show ?thesis using assms by (simp add: convert_csvs_to_netcdf_def Let_def)
qed

text \<open>
  Claim C8. When the turn of a selected file comes, the file is not skipped and its
  pipeline run raises, the error is caught: the file is in the failed list of the result,
  the call returns, and every selected file has been given exactly one outcome
  (converted, skipped or failed), the files after the failing one included.
\<close>

theorem fault_isolation:
  assumes "folder_exists w"
    and "filtered_files upper region uf wmo_code all_files (csv_files w) = pre @ f # post"
    and "parse f = Inl e"
    and "\<not> (netcdf_filename f \<in> netcdf (convert_loop parse skip_existing pre (start_progress w))
           \<and> skip_existing)"
  shows "f \<in> set (failed_files (fst (convert_csvs_to_netcdf upper parse w region uf wmo_code
                                        all_files skip_existing))) \<and>
         converted_files (fst (convert_csvs_to_netcdf upper parse w region uf wmo_code
                                 all_files skip_existing)) +
         skipped_files (fst (convert_csvs_to_netcdf upper parse w region uf wmo_code
                               all_files skip_existing)) +
         length (failed_files (fst (convert_csvs_to_netcdf upper parse w region uf wmo_code
                                      all_files skip_existing))) =
         length (pre @ f # post)"
proof -
  let ?init = "start_progress w"
  let ?mid = "convert_loop parse skip_existing pre ?init"
  let ?fin = "convert_loop parse skip_existing (pre @ f # post) ?init"
  obtain x left where e: "e = (x, left)" by (cases e)
  have step: "convert_file parse skip_existing ?mid f =
      ?mid\<lparr>failed := failed ?mid @ [f],
            netcdf := (if left then insert (netcdf_filename f) (netcdf ?mid) else netcdf ?mid)\<rparr>"
    using assms(3,4) unfolding e by (rule convert_file_fail[rotated])
  have "?fin = convert_loop parse skip_existing post (convert_file parse skip_existing ?mid f)"
    by (simp add: convert_loop_append)
  then have "set (failed (convert_file parse skip_existing ?mid f)) \<subseteq> set (failed ?fin)"
    using convert_loop_failed_mono by metis
  then have mem: "f \<in> set (failed ?fin)" using step by auto
  have cnt: "converted ?fin + length (skipped ?fin) + length (failed ?fin) = length (pre @ f # post)"
    using convert_loop_count[where parse=parse and sk=skip_existing and fs="pre @ f # post" and st="?init"]
    by (simp add: start_progress_def)
  have "pre @ f # post \<noteq> []" by simp
  from convert_result[OF assms(1) assms(2) this, of parse skip_existing] mem cnt
  show ?thesis by (simp add: Let_def)
qed

theorem fault_isolation_witness:
  "fst (convert_csvs_to_netcdf ascii_upper (fails_on ''INMET_CO_DF_A001_X.CSV'')
     \<lparr>folder_exists = True, csv_files = [''INMET_CO_DF_A001_X.CSV'', ''INMET_CO_DF_A002_Y.CSV''],
      netcdf_files = {}\<rparr> NoFilter NoFilter NoFilter True True)
   = \<lparr>success = True, converted_files = 1, skipped_files = 0, total_files_found = 2,
      saved_paths = [''INMET_CO_DF_A002_Y.nc''], failed_files = [''INMET_CO_DF_A001_X.CSV'']\<rparr> \<and>
   ''INMET_CO_DF_A001_X.CSV'' \<in> set (failed_files (fst (convert_csvs_to_netcdf ascii_upper
     (fails_on ''INMET_CO_DF_A001_X.CSV'')
     \<lparr>folder_exists = True, csv_files = [''INMET_CO_DF_A001_X.CSV'', ''INMET_CO_DF_A002_Y.CSV''],
      netcdf_files = {}\<rparr> NoFilter NoFilter NoFilter True True)))"
proof -
  let ?w = "\<lparr>folder_exists = True, csv_files = [''INMET_CO_DF_A001_X.CSV'', ''INMET_CO_DF_A002_Y.CSV''],
      netcdf_files = {}\<rparr>"
  have 1: "folder_exists ?w" by simp
  have 2: "filtered_files ascii_upper NoFilter NoFilter NoFilter True (csv_files ?w) =
      [] @ ''INMET_CO_DF_A001_X.CSV'' # [''INMET_CO_DF_A002_Y.CSV'']"
    by (simp add: filtered_files_def)
  have 3: "fails_on ''INMET_CO_DF_A001_X.CSV'' ''INMET_CO_DF_A001_X.CSV'' = Inl ((), False)"
    by (simp add: fails_on_def)
  have 4: "\<not> (netcdf_filename ''INMET_CO_DF_A001_X.CSV'' \<in>
      netcdf (convert_loop (fails_on ''INMET_CO_DF_A001_X.CSV'') True [] (start_progress ?w)) \<and> True)"
    by (simp add: start_progress_def)
  have e: "fst (convert_csvs_to_netcdf ascii_upper (fails_on ''INMET_CO_DF_A001_X.CSV'') ?w
      NoFilter NoFilter NoFilter True True)
   = \<lparr>success = True, converted_files = 1, skipped_files = 0, total_files_found = 2,
      saved_paths = [''INMET_CO_DF_A002_Y.nc''], failed_files = [''INMET_CO_DF_A001_X.CSV'']\<rparr>"
    by code_simp
  show ?thesis using e fault_isolation [OF 1 2 3 4] by simp
qed

lemma convert_file_netcdf_mono: "netcdf st \<subseteq> netcdf (convert_file parse sk st f)"
  by (auto simp: convert_file_def Let_def split: sum.splits prod.splits)

lemma convert_loop_netcdf_mono: "netcdf st \<subseteq> netcdf (convert_loop parse sk fs st)"
proof (induction fs arbitrary: st)
  case Nil show ?case by simp
next
  case (Cons f fs)
  have "netcdf st \<subseteq> netcdf (convert_file parse sk st f)" by (rule convert_file_netcdf_mono)
  also have "\<dots> \<subseteq> netcdf (convert_loop parse sk fs (convert_file parse sk st f))" by (rule Cons.IH)
  finally show ?case by simp
qed

lemma convert_file_netcdf_bound:
  "netcdf (convert_file parse sk st f) \<subseteq>
     netcdf st \<union> (if creates_output parse f then {netcdf_filename f} else {})"
  by (auto simp: convert_file_def creates_output_def Let_def split: sum.splits prod.splits)

lemma convert_loop_netcdf_bound:
  "netcdf (convert_loop parse sk fs st) \<subseteq>
     netcdf st \<union> netcdf_filename ` {g \<in> set fs. creates_output parse g}"
proof (induction fs arbitrary: st)
  case Nil show ?case by simp
next
  case (Cons f fs)
  show ?case
    using Cons.IH[of "convert_file parse sk st f"] convert_file_netcdf_bound[of parse sk st f]
    by (auto split: if_splits)
qed

lemma convert_loop_missing_fails:
  "f \<in> set fs \<Longrightarrow> netcdf_filename f \<notin> netcdf (convert_loop parse True fs st) \<Longrightarrow>
   \<not> creates_output parse f"
proof (induction fs arbitrary: st)
  case Nil then show ?case by simp
next
  case (Cons g fs)
  show ?case
  proof (cases "f = g")
    case True
    have "netcdf (convert_file parse True st g) \<subseteq> netcdf (convert_loop parse True (g # fs) st)"
      using convert_loop_netcdf_mono by simp
    then have "netcdf_filename g \<notin> netcdf (convert_file parse True st g)"
      using Cons.prems(2) True by auto
    then show ?thesis using True
      by (auto simp: convert_file_def creates_output_def Let_def
          split: sum.splits prod.splits if_splits)
  next
    case False
    then show ?thesis using Cons by auto
  qed
qed

lemma convert_loop_first_run:
  assumes "inj_on netcdf_filename (set fs)"
    and "\<forall>f\<in>set fs. isl (parse f) \<longrightarrow> \<not> creates_output parse f"
  shows "converted (convert_loop parse True fs st) + length (skipped (convert_loop parse True fs st)) =
         converted st + length (skipped st) +
         length (filter (\<lambda>f. netcdf_filename f \<in> netcdf (convert_loop parse True fs st)) fs)"
  using assms
proof (induction fs arbitrary: st)
  case Nil show ?case by simp
next
  case (Cons f fs)
  let ?s = "convert_file parse True st f"
  let ?fin = "convert_loop parse True fs ?s"
  have inj: "inj_on netcdf_filename (set fs)" using Cons.prems(1) by (simp add: inj_on_def)
  have clean: "\<forall>f\<in>set fs. isl (parse f) \<longrightarrow> \<not> creates_output parse f"
    using Cons.prems(2) by simp
  note IH = Cons.IH[OF inj clean, of ?s]
  have mono: "netcdf ?s \<subseteq> netcdf ?fin" by (rule convert_loop_netcdf_mono)
  show ?case
  proof (cases "netcdf_filename f \<in> netcdf st")
    case True
    then have s: "?s = st\<lparr>skipped := skipped st @ [f], saved := saved st @ [netcdf_filename f]\<rparr>"
      by (simp add: convert_file_skip)
    have "netcdf_filename f \<in> netcdf ?fin" using True mono s by auto
    then show ?thesis using IH s by simp
  next
    case False
    show ?thesis
    proof (cases "parse f")
      case (Inr d)
      then have s: "?s = st\<lparr>netcdf := insert (netcdf_filename f) (netcdf st),
          saved := saved st @ [netcdf_filename f], converted := converted st + 1\<rparr>"
        using False by (simp add: convert_file_ok)
      have "netcdf_filename f \<in> netcdf ?fin" using mono s by auto
      then show ?thesis using IH s by simp
    next
      case (Inl e)
      have nc: "\<not> creates_output parse f" using Cons.prems(2) Inl by simp
      then have "parse f = Inl (fst e, False)"
        using Inl by (cases e) (simp add: creates_output_def)
      then have s: "?s = st\<lparr>failed := failed st @ [f]\<rparr>"
        using False convert_file_fail[of f st True parse "fst e" False] by simp
      have "netcdf_filename f \<notin> netcdf_filename ` {g \<in> set fs. creates_output parse g}"
      proof
        assume "netcdf_filename f \<in> netcdf_filename ` {g \<in> set fs. creates_output parse g}"
        then obtain g where g: "g \<in> set fs" "creates_output parse g"
          "netcdf_filename f = netcdf_filename g"
          by auto
        then have "f = g" using Cons.prems(1) by (auto simp: inj_on_def)
        then show False using g nc by simp
      qed
      then have "netcdf_filename f \<notin> netcdf ?fin"
        using convert_loop_netcdf_bound[of parse True fs ?s] False s by auto
      then show ?thesis using IH s by simp
    qed
  qed
qed

lemma convert_file_progress_le:
  "converted (convert_file parse True st f) + length (skipped (convert_file parse True st f)) \<le>
   converted st + length (skipped st) +
     (if netcdf_filename f \<in> netcdf (convert_file parse True st f) then 1 else 0)"
  by (auto simp: convert_file_def Let_def split: sum.splits prod.splits)

lemma convert_loop_first_run_le:
  "converted (convert_loop parse True fs st) + length (skipped (convert_loop parse True fs st)) \<le>
   converted st + length (skipped st) +
   length (filter (\<lambda>f. netcdf_filename f \<in> netcdf (convert_loop parse True fs st)) fs)"
proof (induction fs arbitrary: st)
  case Nil show ?case by simp
next
  case (Cons f fs)
  let ?s = "convert_file parse True st f"
  let ?fin = "convert_loop parse True fs ?s"
  have mono: "netcdf ?s \<subseteq> netcdf ?fin" by (rule convert_loop_netcdf_mono)
  have step: "converted ?s + length (skipped ?s) \<le>
      converted st + length (skipped st) + (if netcdf_filename f \<in> netcdf ?fin then 1 else 0)"
    using convert_file_progress_le[of parse st f] mono by (auto split: if_splits)
  show ?case using Cons.IH[of ?s] step by (auto split: if_splits)
qed

lemma convert_loop_second_run:
  assumes "\<forall>f\<in>set fs. netcdf_filename f \<notin> netcdf st \<longrightarrow> \<not> creates_output parse f"
  shows "convert_loop parse True fs st =
     st\<lparr>skipped := skipped st @ filter (\<lambda>f. netcdf_filename f \<in> netcdf st) fs,
        saved := saved st @ map netcdf_filename (filter (\<lambda>f. netcdf_filename f \<in> netcdf st) fs),
        failed := failed st @ filter (\<lambda>f. netcdf_filename f \<notin> netcdf st) fs\<rparr>"
  using assms
proof (induction fs arbitrary: st)
  case Nil show ?case by simp
next
  case (Cons f fs)
  show ?case
  proof (cases "netcdf_filename f \<in> netcdf st")
    case True
    then have s: "convert_file parse True st f =
        st\<lparr>skipped := skipped st @ [f], saved := saved st @ [netcdf_filename f]\<rparr>"
      by (simp add: convert_file_skip)
    show ?thesis using Cons.IH[of "convert_file parse True st f"] Cons.prems True
      by (simp add: s)
  next
    case False
    then have "\<not> creates_output parse f" using Cons.prems by simp
    then obtain e where "parse f = Inl (e, False)"
      by (cases "parse f") (auto simp: creates_output_def)
    then have s: "convert_file parse True st f = st\<lparr>failed := failed st @ [f]\<rparr>"
      using False convert_file_fail[of f st True parse e False] by simp
    show ?thesis using Cons.IH[of "convert_file parse True st f"] Cons.prems False
      by (simp add: s)
  qed
qed

text \<open>
  Claim C7, as amended. A second call with \<open>skip_existing\<close> set and the same arguments,
  on the file system the first call left, converts nothing, skips exactly the selected
  files whose output file exists, lists the output path of each of them and leaves the
  file system as it is. The number it skips is at least the number the first call
  converted or skipped, and it is that number when the selected files have pairwise
  distinct output names and no run that raised left its output file behind.
\<close>

theorem rerun_skips_converted:
  assumes "folder_exists w"
  shows "(let (r1, w1) = convert_csvs_to_netcdf upper parse w region uf wmo_code all_files True;
              (r2, w2) = convert_csvs_to_netcdf upper parse w1 region uf wmo_code all_files True
          in converted_files r2 = 0 \<and>
             skipped_files r2 =
               length (filter (\<lambda>f. netcdf_filename f \<in> netcdf_files w1)
                  (filtered_files upper region uf wmo_code all_files (csv_files w))) \<and>
             saved_paths r2 = map netcdf_filename
               (filter (\<lambda>f. netcdf_filename f \<in> netcdf_files w1)
                  (filtered_files upper region uf wmo_code all_files (csv_files w))) \<and>
             w2 = w1 \<and>
             converted_files r1 + skipped_files r1 \<le> skipped_files r2 \<and>
             (inj_on netcdf_filename
                (set (filtered_files upper region uf wmo_code all_files (csv_files w))) \<and>
              (\<forall>f\<in>set (filtered_files upper region uf wmo_code all_files (csv_files w)).
                 isl (parse f) \<longrightarrow> \<not> creates_output parse f)
              \<longrightarrow> skipped_files r2 = converted_files r1 + skipped_files r1))"
proof -
  let ?sel = "filtered_files upper region uf wmo_code all_files (csv_files w)"
  show ?thesis
  proof (cases "?sel = []")
    case True
    then have "convert_csvs_to_netcdf upper parse w region uf wmo_code all_files True =
        (failure_result (length (csv_files w)), w)"
      using assms(1) by (auto simp: convert_csvs_to_netcdf_def Let_def)
    then show ?thesis using True by (simp add: failure_result_def)
  next
    case False
    let ?fin = "convert_loop parse True ?sel (start_progress w)"
    let ?w1 = "w\<lparr>netcdf_files := netcdf ?fin\<rparr>"
    have run1: "convert_csvs_to_netcdf upper parse w region uf wmo_code all_files True =
        (\<lparr>success = (converted ?fin + length (skipped ?fin) > 0),
          converted_files = converted ?fin, skipped_files = length (skipped ?fin),
          total_files_found = length (csv_files w), saved_paths = saved ?fin,
          failed_files = failed ?fin\<rparr>, ?w1)"
      using convert_result[OF assms(1) refl False, of parse True] by (simp add: Let_def)
    have fails: "\<forall>f\<in>set ?sel. netcdf_filename f \<notin> netcdf (start_progress ?w1) \<longrightarrow>
        \<not> creates_output parse f"
      using convert_loop_missing_fails[of _ ?sel parse "start_progress w"]
      by (auto simp: start_progress_def)
    let ?again = "convert_loop parse True ?sel (start_progress ?w1)"
    have again: "?again = (start_progress ?w1)
        \<lparr>skipped := filter (\<lambda>f. netcdf_filename f \<in> netcdf ?fin) ?sel,
         saved := map netcdf_filename (filter (\<lambda>f. netcdf_filename f \<in> netcdf ?fin) ?sel),
         failed := filter (\<lambda>f. netcdf_filename f \<notin> netcdf ?fin) ?sel\<rparr>"
      using convert_loop_second_run[OF fails] by (simp add: start_progress_def)
    have sel1: "filtered_files upper region uf wmo_code all_files (csv_files ?w1) = ?sel" by simp
    have raw: "convert_csvs_to_netcdf upper parse ?w1 region uf wmo_code all_files True =
        (\<lparr>success = (converted ?again + length (skipped ?again) > 0),
          converted_files = converted ?again, skipped_files = length (skipped ?again),
          total_files_found = length (csv_files ?w1), saved_paths = saved ?again,
          failed_files = failed ?again\<rparr>, ?w1\<lparr>netcdf_files := netcdf ?again\<rparr>)"
      using convert_result[of ?w1, OF _ sel1 False, of parse True] assms(1) by (simp add: Let_def)
    have run2: "convert_csvs_to_netcdf upper parse ?w1 region uf wmo_code all_files True =
        (\<lparr>success = (length (filter (\<lambda>f. netcdf_filename f \<in> netcdf ?fin) ?sel) > 0),
          converted_files = 0,
          skipped_files = length (filter (\<lambda>f. netcdf_filename f \<in> netcdf ?fin) ?sel),
          total_files_found = length (csv_files w),
          saved_paths = map netcdf_filename (filter (\<lambda>f. netcdf_filename f \<in> netcdf ?fin) ?sel),
          failed_files = filter (\<lambda>f. netcdf_filename f \<notin> netcdf ?fin) ?sel\<rparr>, ?w1)"
      unfolding raw again by (simp add: start_progress_def)
    have le: "converted ?fin + length (skipped ?fin) \<le>
        length (filter (\<lambda>f. netcdf_filename f \<in> netcdf ?fin) ?sel)"
      using convert_loop_first_run_le[of parse ?sel "start_progress w"]
      by (simp add: start_progress_def)
    have cnt: "converted ?fin + length (skipped ?fin) =
        length (filter (\<lambda>f. netcdf_filename f \<in> netcdf ?fin) ?sel)"
      if "inj_on netcdf_filename (set ?sel)"
        and "\<forall>f\<in>set ?sel. isl (parse f) \<longrightarrow> \<not> creates_output parse f"
      using convert_loop_first_run[OF that, of "start_progress w"]
      by (simp add: start_progress_def)
    show ?thesis using le cnt by (simp add: run1 run2)
  qed
qed

lemma length_split_char: "length (split_char c s) = Suc (count_list s c)"
  by (induction s) (auto split: list.splits)

lemma count_drop_prefix:
  "prefix old s \<Longrightarrow> c \<notin> set old \<Longrightarrow> count_list (drop (length old) s) c = count_list s c"
  by (auto simp: prefix_def count_list_0_iff)

lemma count_replace_ne:
  "c \<notin> set old \<Longrightarrow> c \<notin> set new \<Longrightarrow> count_list (replace_ne old new s) c = count_list s c"
proof (induction old new s rule: replace_ne.induct)
  case (1 old new) show ?case by simp
next
  case (2 old new d ds)
  show ?case
  proof (cases "old \<noteq> [] \<and> prefix old (d # ds)")
    case True
    have step: "replace_ne old new (d # ds) = new @ replace_ne old new (drop (length old) (d # ds))"
      by (simp only: replace_ne.simps True if_True simp_thms)
    have "count_list new c = 0" using 2(4) by (simp add: count_list_0_iff)
    then have "count_list (replace_ne old new (d # ds)) c =
        count_list (replace_ne old new (drop (length old) (d # ds))) c"
      by (simp only: step count_list_append add_0)
    also have "\<dots> = count_list (drop (length old) (d # ds)) c" by (rule 2(1)[OF True 2(3,4)])
    also have "\<dots> = count_list (d # ds) c" by (rule count_drop_prefix[OF conjunct2[OF True] 2(3)])
    finally show ?thesis .
  next
    case False
    have step: "replace_ne old new (d # ds) = d # replace_ne old new ds"
      by (simp only: replace_ne.simps False if_False simp_thms)
    show ?thesis by (simp only: step count_list.simps 2(2)[OF False 2(3,4)])
  qed
qed

lemma count_py_replace:
  "old \<noteq> [] \<Longrightarrow> c \<notin> set old \<Longrightarrow> c \<notin> set new \<Longrightarrow> count_list (py_replace old new s) c = count_list s c"
  by (simp add: py_replace_def count_replace_ne)

lemma segments_netcdf_filename:
  "length (split_char CHR ''_'' (py_replace ''.CSV'' [] f)) = Suc (count_list (netcdf_filename f) CHR ''_'')"
  by (simp add: length_split_char netcdf_filename_def count_py_replace)

lemma count_take_le: "count_list (take i s) c \<le> count_list s c"
proof (induction s arbitrary: i)
  case Nil show ?case by simp
next
  case (Cons x xs) show ?case using Cons[of "i - 1"] by (cases i) auto
qed

lemma segments_path_stem:
  "length (split_char CHR ''_'' (path_stem f)) \<le> length (split_char CHR ''_'' (py_replace ''.CSV'' [] f))"
  by (simp add: length_split_char count_py_replace path_stem_def Let_def count_take_le)

theorem rerun_skips_converted_witness:
  "convert_csvs_to_netcdf ascii_upper (fails_on ''INMET_CO_DF_A001_X.CSV'')
     \<lparr>folder_exists = True,
      csv_files = [''INMET_CO_DF_A001_X.CSV'', ''INMET_CO_DF_A002_Y.CSV'', ''INMET_SE_SP_A701_Z.CSV''],
      netcdf_files = {''INMET_SE_SP_A701_Z.nc''}\<rparr> NoFilter NoFilter NoFilter False True =
   (\<lparr>success = True, converted_files = 1, skipped_files = 1, total_files_found = 3,
      saved_paths = [''INMET_CO_DF_A002_Y.nc'', ''INMET_SE_SP_A701_Z.nc''],
      failed_files = [''INMET_CO_DF_A001_X.CSV'']\<rparr>,
    \<lparr>folder_exists = True,
      csv_files = [''INMET_CO_DF_A001_X.CSV'', ''INMET_CO_DF_A002_Y.CSV'', ''INMET_SE_SP_A701_Z.CSV''],
      netcdf_files = {''INMET_CO_DF_A002_Y.nc'', ''INMET_SE_SP_A701_Z.nc''}\<rparr>) \<and>
   skipped_files (fst (convert_csvs_to_netcdf ascii_upper (fails_on ''INMET_CO_DF_A001_X.CSV'')
     \<lparr>folder_exists = True,
      csv_files = [''INMET_CO_DF_A001_X.CSV'', ''INMET_CO_DF_A002_Y.CSV'', ''INMET_SE_SP_A701_Z.CSV''],
      netcdf_files = {''INMET_CO_DF_A002_Y.nc'', ''INMET_SE_SP_A701_Z.nc''}\<rparr>
      NoFilter NoFilter NoFilter False True)) = 2 \<and>
   converted_files (fst (convert_csvs_to_netcdf ascii_upper (fails_on ''INMET_CO_DF_A001_X.CSV'')
     \<lparr>folder_exists = True,
      csv_files = [''INMET_CO_DF_A001_X.CSV'', ''INMET_CO_DF_A002_Y.CSV'', ''INMET_SE_SP_A701_Z.CSV''],
      netcdf_files = {''INMET_CO_DF_A002_Y.nc'', ''INMET_SE_SP_A701_Z.nc''}\<rparr>
      NoFilter NoFilter NoFilter False True)) = 0"
proof -
  let ?files = "[''INMET_CO_DF_A001_X.CSV'', ''INMET_CO_DF_A002_Y.CSV'', ''INMET_SE_SP_A701_Z.CSV'']"
  let ?w = "\<lparr>folder_exists = True, csv_files = ?files, netcdf_files = {''INMET_SE_SP_A701_Z.nc''}\<rparr>"
  let ?p = "fails_on ''INMET_CO_DF_A001_X.CSV''"
  have sel: "filtered_files ascii_upper NoFilter NoFilter NoFilter False ?files = ?files"
    by code_simp
  have names: "netcdf_filename ''INMET_CO_DF_A001_X.CSV'' = ''INMET_CO_DF_A001_X.nc''"
    "netcdf_filename ''INMET_CO_DF_A002_Y.CSV'' = ''INMET_CO_DF_A002_Y.nc''"
    "netcdf_filename ''INMET_SE_SP_A701_Z.CSV'' = ''INMET_SE_SP_A701_Z.nc''"
    by code_simp+
  have h1: "folder_exists ?w" by simp
  have h2: "inj_on netcdf_filename
      (set (filtered_files ascii_upper NoFilter NoFilter NoFilter False (csv_files ?w)))"
    by (simp add: sel names)
  have run1: "convert_csvs_to_netcdf ascii_upper ?p ?w NoFilter NoFilter NoFilter False True =
    (\<lparr>success = True, converted_files = 1, skipped_files = 1, total_files_found = 3,
      saved_paths = [''INMET_CO_DF_A002_Y.nc'', ''INMET_SE_SP_A701_Z.nc''],
      failed_files = [''INMET_CO_DF_A001_X.CSV'']\<rparr>,
     \<lparr>folder_exists = True, csv_files = ?files,
      netcdf_files = {''INMET_CO_DF_A002_Y.nc'', ''INMET_SE_SP_A701_Z.nc''}\<rparr>)"
    by (simp add: convert_csvs_to_netcdf_def sel Let_def convert_loop_def convert_file_def names
        start_progress_def fails_on_def insert_commute)
  have h3: "\<forall>f\<in>set (filtered_files ascii_upper NoFilter NoFilter NoFilter False (csv_files ?w)).
      isl (?p f) \<longrightarrow> \<not> creates_output ?p f"
    by (simp add: sel creates_output_def fails_on_def)
  show ?thesis
    using rerun_skips_converted [OF h1, of ascii_upper ?p NoFilter NoFilter NoFilter False] h2 h3
    by (simp add: run1 split: prod.splits)
qed

text \<open>
  Without distinct output names the count fails. \<open>replace('.CSV', '.nc')\<close> rewrites
  every occurrence, so \<open>INMET_CO_DF_A001_X.CSV.CSV\<close> and \<open>INMET_CO_DF_A001_X.nc.CSV\<close>
  share the output \<open>INMET_CO_DF_A001_X.nc.nc\<close>. The first file fails and the second is
  converted: the first call converts one file and skips none, the second call skips
  two.
\<close>

theorem rerun_skips_more_counterexample:
  "convert_csvs_to_netcdf ascii_upper (fails_on ''INMET_CO_DF_A001_X.CSV.CSV'')
     \<lparr>folder_exists = True,
      csv_files = [''INMET_CO_DF_A001_X.CSV.CSV'', ''INMET_CO_DF_A001_X.nc.CSV''],
      netcdf_files = {}\<rparr> NoFilter NoFilter NoFilter False True =
   (\<lparr>success = True, converted_files = 1, skipped_files = 0, total_files_found = 2,
      saved_paths = [''INMET_CO_DF_A001_X.nc.nc''],
      failed_files = [''INMET_CO_DF_A001_X.CSV.CSV'']\<rparr>,
    \<lparr>folder_exists = True,
      csv_files = [''INMET_CO_DF_A001_X.CSV.CSV'', ''INMET_CO_DF_A001_X.nc.CSV''],
      netcdf_files = {''INMET_CO_DF_A001_X.nc.nc''}\<rparr>) \<and>
   convert_csvs_to_netcdf ascii_upper (fails_on ''INMET_CO_DF_A001_X.CSV.CSV'')
     \<lparr>folder_exists = True,
      csv_files = [''INMET_CO_DF_A001_X.CSV.CSV'', ''INMET_CO_DF_A001_X.nc.CSV''],
      netcdf_files = {''INMET_CO_DF_A001_X.nc.nc''}\<rparr> NoFilter NoFilter NoFilter False True =
   (\<lparr>success = True, converted_files = 0, skipped_files = 2, total_files_found = 2,
      saved_paths = [''INMET_CO_DF_A001_X.nc.nc'', ''INMET_CO_DF_A001_X.nc.nc''],
      failed_files = []\<rparr>,
    \<lparr>folder_exists = True,
      csv_files = [''INMET_CO_DF_A001_X.CSV.CSV'', ''INMET_CO_DF_A001_X.nc.CSV''],
      netcdf_files = {''INMET_CO_DF_A001_X.nc.nc''}\<rparr>)"
proof -
  let ?files = "[''INMET_CO_DF_A001_X.CSV.CSV'', ''INMET_CO_DF_A001_X.nc.CSV'']"
  have sel: "filtered_files ascii_upper NoFilter NoFilter NoFilter False ?files = ?files"
    by code_simp
  have names: "netcdf_filename ''INMET_CO_DF_A001_X.CSV.CSV'' = ''INMET_CO_DF_A001_X.nc.nc''"
    "netcdf_filename ''INMET_CO_DF_A001_X.nc.CSV'' = ''INMET_CO_DF_A001_X.nc.nc''"
    by code_simp+
  show ?thesis
    by (simp add: convert_csvs_to_netcdf_def sel Let_def convert_loop_def convert_file_def names
        start_progress_def fails_on_def)
qed

lemma convert_file_failed_bound:
  "set (failed (convert_file parse sk st f)) \<subseteq> set (failed st) \<union> {f}"
  by (auto simp: convert_file_def Let_def split: sum.splits prod.splits)

lemma convert_file_saved_bound:
  "set (saved (convert_file parse sk st f)) \<subseteq> set (saved st) \<union> {netcdf_filename f}"
  by (auto simp: convert_file_def Let_def split: sum.splits prod.splits)

lemma convert_loop_failed_bound:
  "set (failed (convert_loop parse sk fs st)) \<subseteq> set (failed st) \<union> set fs"
proof (induction fs arbitrary: st)
  case Nil show ?case by simp
next
  case (Cons f fs)
  show ?case using Cons.IH[of "convert_file parse sk st f"] convert_file_failed_bound[of parse sk st f]
    by auto
qed

lemma convert_loop_saved_bound:
  "set (saved (convert_loop parse sk fs st)) \<subseteq> set (saved st) \<union> netcdf_filename ` set fs"
proof (induction fs arbitrary: st)
  case Nil show ?case by simp
next
  case (Cons f fs)
  show ?case using Cons.IH[of "convert_file parse sk st f"] convert_file_saved_bound[of parse sk st f]
    by auto
qed

lemma include_file_short:
  "length (split_char CHR ''_'' (py_replace ''.CSV'' [] f)) < 5 \<Longrightarrow>
   \<not> include_file upper rflt uflt wflt f"
  by (simp add: include_file_def Let_def)

lemma include_file_long:
  "include_file upper rflt uflt wflt f \<Longrightarrow> 5 \<le> length (split_char CHR ''_'' (py_replace ''.CSV'' [] f))"
  using include_file_short by (meson not_le)

text \<open>
  Claim C10. A candidate whose name has fewer than five segments is not selected when
  \<open>all_files\<close> is false: it is not in the failed list, its output is not among the
  saved paths (so it is neither converted nor skipped), and it is counted in
  \<open>total_files_found\<close>. When \<open>all_files\<close> is true it is selected, and the pipeline
  takes its identity from the metadata preamble.
\<close>

theorem short_name_excluded:
  assumes "folder_exists w" and "f \<in> set (csv_files w)"
    and "length (split_char CHR ''_'' (py_replace ''.CSV'' [] f)) < 5"
  shows "f \<notin> set (filtered_files upper region uf wmo_code False (csv_files w)) \<and>
    f \<notin> set (failed_files (fst (convert_csvs_to_netcdf upper parse w region uf wmo_code False skip_existing))) \<and>
    netcdf_filename f \<notin> set (saved_paths (fst (convert_csvs_to_netcdf upper parse w region uf wmo_code False skip_existing))) \<and>
    total_files_found (fst (convert_csvs_to_netcdf upper parse w region uf wmo_code False skip_existing)) =
      length (csv_files w) \<and>
    f \<in> set (filtered_files upper region uf wmo_code True (csv_files w)) \<and>
    file_identity f metadata =
      (dict_get metadata ''REGIAO'' ''Unknown'', dict_get metadata ''UF'' ''Unknown'',
       dict_get metadata ''CODIGO (WMO)'' ''Unknown'', dict_get metadata ''ESTACAO'' ''Unknown'')"
proof -
  let ?sel = "filtered_files upper region uf wmo_code False (csv_files w)"
  let ?res = "fst (convert_csvs_to_netcdf upper parse w region uf wmo_code False skip_existing)"
  have long: "5 \<le> length (split_char CHR ''_'' (py_replace ''.CSV'' [] g))" if "g \<in> set ?sel" for g
    using that include_file_long by (auto simp: filtered_files_def)
  have a: "f \<notin> set ?sel" using long assms(3) by fastforce
  have out: "netcdf_filename f \<notin> netcdf_filename ` set ?sel"
  proof
    assume "netcdf_filename f \<in> netcdf_filename ` set ?sel"
    then obtain g where g: "g \<in> set ?sel" "netcdf_filename f = netcdf_filename g" by auto
    have "length (split_char CHR ''_'' (py_replace ''.CSV'' [] f)) =
          length (split_char CHR ''_'' (py_replace ''.CSV'' [] g))"
      by (simp only: segments_netcdf_filename g(2))
    then show False using long[OF g(1)] assms(3) by simp
  qed
  have ne: "csv_files w \<noteq> []" using assms(2) by auto
  have res: "set (failed_files ?res) \<subseteq> set ?sel \<and> set (saved_paths ?res) \<subseteq> netcdf_filename ` set ?sel
      \<and> total_files_found ?res = length (csv_files w)"
  proof (cases "?sel = []")
    case True
    then show ?thesis using assms(1) ne
      by (simp add: convert_csvs_to_netcdf_def Let_def failure_result_def)
  next
    case False
    show ?thesis
      using convert_result[OF assms(1) refl False, of parse skip_existing]
        convert_loop_failed_bound[of parse skip_existing ?sel "start_progress w"]
        convert_loop_saved_bound[of parse skip_existing ?sel "start_progress w"]
      by (simp add: Let_def start_progress_def)
  qed
  have b: "f \<notin> set (failed_files ?res)" using res a by blast
  have c: "netcdf_filename f \<notin> set (saved_paths ?res)" using res out by blast
  have d: "f \<in> set (filtered_files upper region uf wmo_code True (csv_files w))"
    using assms(2) by (simp add: filtered_files_def)
  have "length (split_char CHR ''_'' (path_stem f)) < 5"
    using segments_path_stem[of f] assms(3) by simp
  then have e: "file_identity f metadata =
      (dict_get metadata ''REGIAO'' ''Unknown'', dict_get metadata ''UF'' ''Unknown'',
       dict_get metadata ''CODIGO (WMO)'' ''Unknown'', dict_get metadata ''ESTACAO'' ''Unknown'')"
    by (simp add: file_identity_def Let_def)
  show ?thesis using a b c d e res by blast
qed

theorem short_name_excluded_witness:
  "convert_csvs_to_netcdf ascii_upper (fails_on ''INMET_CO_DF_A001_X.CSV'')
     \<lparr>folder_exists = True, csv_files = [''INMET_BELEM.CSV'', ''INMET_CO_DF_A002_Y.CSV''],
      netcdf_files = {}\<rparr> NoFilter NoFilter NoFilter False True =
   (\<lparr>success = True, converted_files = 1, skipped_files = 0, total_files_found = 2,
      saved_paths = [''INMET_CO_DF_A002_Y.nc''], failed_files = []\<rparr>,
    \<lparr>folder_exists = True, csv_files = [''INMET_BELEM.CSV'', ''INMET_CO_DF_A002_Y.CSV''],
      netcdf_files = {''INMET_CO_DF_A002_Y.nc''}\<rparr>) \<and>
   ''INMET_BELEM.CSV'' \<notin> set (filtered_files ascii_upper NoFilter NoFilter NoFilter False
      [''INMET_BELEM.CSV'', ''INMET_CO_DF_A002_Y.CSV'']) \<and>
   file_identity ''INMET_BELEM.CSV'' [''REGIAO'' \<mapsto> ''N'', ''UF'' \<mapsto> ''PA''] =
     (''N'', ''PA'', ''Unknown'', ''Unknown'')"
proof -
  let ?files = "[''INMET_BELEM.CSV'', ''INMET_CO_DF_A002_Y.CSV'']"
  let ?w = "\<lparr>folder_exists = True, csv_files = ?files, netcdf_files = {}\<rparr>"
  have h1: "folder_exists ?w" by simp
  have h2: "''INMET_BELEM.CSV'' \<in> set (csv_files ?w)" by simp
  have h3: "length (split_char CHR ''_'' (py_replace ''.CSV'' [] ''INMET_BELEM.CSV'')) < 5"
    by code_simp
  have sel: "filtered_files ascii_upper NoFilter NoFilter NoFilter False ?files =
      [''INMET_CO_DF_A002_Y.CSV'']"
    by code_simp
  have names: "netcdf_filename ''INMET_CO_DF_A002_Y.CSV'' = ''INMET_CO_DF_A002_Y.nc''"
    by code_simp
  have run: "convert_csvs_to_netcdf ascii_upper (fails_on ''INMET_CO_DF_A001_X.CSV'') ?w
      NoFilter NoFilter NoFilter False True =
   (\<lparr>success = True, converted_files = 1, skipped_files = 0, total_files_found = 2,
      saved_paths = [''INMET_CO_DF_A002_Y.nc''], failed_files = []\<rparr>,
    \<lparr>folder_exists = True, csv_files = ?files, netcdf_files = {''INMET_CO_DF_A002_Y.nc''}\<rparr>)"
    by (simp add: convert_csvs_to_netcdf_def sel Let_def convert_loop_def convert_file_def names
        start_progress_def fails_on_def)
  show ?thesis
    using short_name_excluded [OF h1 h2 h3, where upper = ascii_upper and region = NoFilter
        and uf = NoFilter and wmo_code = NoFilter
        and parse = "fails_on ''INMET_CO_DF_A001_X.CSV''" and skip_existing = True
        and metadata = "[''REGIAO'' \<mapsto> ''N'', ''UF'' \<mapsto> ''PA'']"]
    by (simp add: run dict_get_def)
qed

section \<open>Properties of the per-file pipeline\<close>

lemma try_encodings_None:
  "try_encodings decode encs bs = None \<longleftrightarrow> (\<forall>enc\<in>set encs. decode enc bs = None)"
  by (induction encs) (auto split: option.splits)





















lemma rename_date: "rename_column col = ''date'' \<longleftrightarrow> takes_date_role col"
  by (auto simp: rename_column_def takes_date_role_def)

lemma rename_hour: "rename_column col = ''hour_utc'' \<longleftrightarrow> takes_hour_role col"
proof -
  have "\<not> py_in ''Data'' ''hour_utc''" by code_simp
  then show ?thesis by (auto simp: rename_column_def takes_hour_role_def)
qed

lemma essential_columns:
  "essential_columns_missing (map rename_column header) \<longleftrightarrow>
   \<not> (list_ex takes_date_role header \<and> list_ex takes_hour_role header)"
proof -
  have d: "''date'' \<in> set (map rename_column header) \<longleftrightarrow> list_ex takes_date_role header"
    by (induction header) (simp_all add: rename_date [symmetric] eq_commute)
  have h: "''hour_utc'' \<in> set (map rename_column header) \<longleftrightarrow> list_ex takes_hour_role header"
    by (induction header) (simp_all add: rename_hour [symmetric] eq_commute)
  show ?thesis unfolding essential_columns_missing_def d h by blast
qed

lemma process_table_missing:
  "process_table lib debug ident coords metadata df = Inl MissingEssentialColumns \<longleftrightarrow>
   essential_columns_missing (renamed_columns df)"
  by (auto simp: process_table_def Let_def split: if_splits prod.splits store_outcome.splits)

text \<open>
  Claim C3, as amended. Once the preamble, the coordinates and the table are read, the
  pipeline fails with \<open>MissingEssentialColumns\<close> exactly when, among the columns that
  hold a value in some row, the date role or the hour role is not taken: no column
  name contains \<open>Data\<close> or is \<open>date\<close>, or no column name contains \<open>Hora\<close> and \<open>UTC\<close>
  without \<open>Data\<close> or is \<open>hour_utc\<close>.
\<close>

theorem missing_essential_columns:
  assumes "read_head (py_decode lib) debug bs = Inr (encoding, metadata)"
    and "read_coordinates (py_float lib) metadata = Inr coords"
    and "pd_read_csv lib encoding bs = Some df"
  shows "parse_inmet_csv_to_netcdf_robust lib debug csv_file_path bs = Inl MissingEssentialColumns
    \<longleftrightarrow> \<not> (list_ex takes_date_role (df_columns (dropna_columns df)) \<and>
            list_ex takes_hour_role (df_columns (dropna_columns df)))"
proof -
  have "parse_inmet_csv_to_netcdf_robust lib debug csv_file_path bs =
      process_table lib debug (file_identity csv_file_path metadata) coords metadata df"
    using assms by (simp add: parse_inmet_csv_to_netcdf_robust_def Let_def)
  then show ?thesis
    by (simp only: process_table_missing renamed_columns_def essential_columns)
qed

theorem missing_essential_columns_witness:
  "list_ex takes_date_role (df_columns (dropna_columns example_table)) \<and>
   list_ex takes_hour_role (df_columns (dropna_columns example_table)) \<and>
   parse_inmet_csv_to_netcdf_robust (example_library example_table) False
     ''INMET_CO_DF_A001_BRASILIA.CSV'' example_file \<noteq> Inl MissingEssentialColumns"
proof -
  let ?lib = "example_library example_table"
  have "case read_head (py_decode ?lib) False example_file of
          Inl e \<Rightarrow> False
        | Inr (encoding, metadata) \<Rightarrow> \<not> isl (read_coordinates (py_float ?lib) metadata)"
    by code_simp
  then obtain encoding metadata
    where head: "read_head (py_decode ?lib) False example_file = Inr (encoding, metadata)"
      and ok: "\<not> isl (read_coordinates (py_float ?lib) metadata)"
    by (auto split: sum.splits)
  from ok obtain coords where coords: "read_coordinates (py_float ?lib) metadata = Inr coords"
    by (cases "read_coordinates (py_float ?lib) metadata") auto
  have csv: "pd_read_csv ?lib encoding example_file = Some example_table"
    by (simp add: example_library_def)
  have roles: "list_ex takes_date_role (df_columns (dropna_columns example_table))"
    "list_ex takes_hour_role (df_columns (dropna_columns example_table))"
    by code_simp+
  show ?thesis
    using roles missing_essential_columns [OF head coords csv, of "''INMET_CO_DF_A001_BRASILIA.CSV''"]
    by simp
qed

text \<open>
  A header with a date column and no hour column: the date role is identified, and the
  pipeline fails with \<open>MissingEssentialColumns\<close>.
\<close>

theorem date_without_hour_counterexample:
  "date_role_identified (df_columns date_only_table) \<and>
   parse_inmet_csv_to_netcdf_robust (example_library date_only_table) False
     ''INMET_CO_DF_A001_BRASILIA.CSV'' date_only_file = Inl MissingEssentialColumns"
  by code_simp

lemma idx_lt: "i < n \<Longrightarrow> j < (mm::nat) \<Longrightarrow> i * mm + j < n * mm"
proof -
  assume a: "i < n" "j < mm"
  have "i * mm + j < i * mm + mm" using a(2) by simp
  also have "\<dots> = Suc i * mm" by simp
  also have "\<dots> \<le> n * mm" using a(1) by (intro mult_le_mono1) simp
  finally show ?thesis .
qed

lemma fill_cell_update:
  assumes "nd_shape m = [n, mm]" and "nd_data m ! (i * mm + j) = None"
    and "i * mm + j < length (nd_data m)"
  shows "fill_cell lib obs cols var dates hours i m j =
     m\<lparr>nd_data := (nd_data m)[i * mm + j :=
           grid_value lib obs cols var (dates ! i) (hours ! j)]\<rparr>"
proof -
  have id: "m\<lparr>nd_data := (nd_data m)[i * mm + j := None]\<rparr> = m"
    using assms(2) by (metis list_update_id ndarray.surjective ndarray.update_convs(2))
  show ?thesis
    using assms(1) id
    by (simp add: fill_cell_def grid_value_def set_cell_def split: option.splits)
qed

lemma fill_row_upto:
  assumes "nd_shape m = [n, mm]" and "\<forall>j<mm. nd_data m ! (i * mm + j) = None"
    and "i * mm + mm \<le> length (nd_data m)" and "J \<le> mm"
  shows "nd_shape (foldl (fill_cell lib obs cols var dates hours i) m [0..<J]) = [n, mm] \<and>
    length (nd_data (foldl (fill_cell lib obs cols var dates hours i) m [0..<J])) =
      length (nd_data m) \<and>
    (\<forall>k<length (nd_data m).
       nd_data (foldl (fill_cell lib obs cols var dates hours i) m [0..<J]) ! k =
         (if i * mm \<le> k \<and> k < i * mm + J
          then grid_value lib obs cols var (dates ! i) (hours ! (k - i * mm))
          else nd_data m ! k))"
  using assms(4)
proof (induction J)
  case 0 show ?case using assms(1) by auto
next
  case (Suc J)
  let ?f = "fill_cell lib obs cols var dates hours i"
  let ?m = "foldl ?f m [0..<J]"
  have IH: "nd_shape ?m = [n, mm]" "length (nd_data ?m) = length (nd_data m)"
    "\<forall>k<length (nd_data m). nd_data ?m ! k =
         (if i * mm \<le> k \<and> k < i * mm + J
          then grid_value lib obs cols var (dates ! i) (hours ! (k - i * mm))
          else nd_data m ! k)"
    using Suc by simp_all
  have J: "J < mm" using Suc.prems by simp
  have lt: "i * mm + J < length (nd_data m)" using J assms(3) by simp
  have none: "nd_data ?m ! (i * mm + J) = None" using IH(3) lt assms(2) J by simp
  have step: "?f ?m J = ?m\<lparr>nd_data := (nd_data ?m)[i * mm + J :=
           grid_value lib obs cols var (dates ! i) (hours ! J)]\<rparr>"
    using fill_cell_update[OF IH(1) none] lt IH(2) by simp
  have fold: "foldl ?f m [0..<Suc J] = ?f ?m J" by simp
  show ?case unfolding fold step using IH lt
    by (auto simp: nth_list_update)
qed

lemma fill_row_full:
  assumes "nd_shape m = [n, mm]" and "\<forall>j<mm. nd_data m ! (i * mm + j) = None"
    and "i * mm + mm \<le> length (nd_data m)" and "mm = length hours"
  shows "nd_shape (fill_row lib obs cols var dates hours m i) = [n, mm] \<and>
    length (nd_data (fill_row lib obs cols var dates hours m i)) = length (nd_data m) \<and>
    (\<forall>k<length (nd_data m).
       nd_data (fill_row lib obs cols var dates hours m i) ! k =
         (if i * mm \<le> k \<and> k < i * mm + mm
          then grid_value lib obs cols var (dates ! i) (hours ! (k - i * mm))
          else nd_data m ! k))"
  using fill_row_upto[OF assms(1,2,3), of mm lib obs cols var dates hours] assms(4)
  by (simp add: fill_row_def)

lemma divmod_idx: "j < (mm::nat) \<Longrightarrow> (i * mm + j) div mm = i \<and> (i * mm + j) mod mm = j"
  by simp

lemma divmod_range:
  assumes "i * mm \<le> k" and "k < i * mm + (mm::nat)"
  shows "k div mm = i \<and> k mod mm = k - i * mm"
proof -
  have "k = i * mm + (k - i * mm)" "k - i * mm < mm" using assms by simp_all
  then show ?thesis using divmod_idx[of "k - i * mm" mm i] by simp
qed

lemma var_matrix_upto:
  assumes "I \<le> length dates"
  shows "nd_shape (foldl (fill_row lib obs cols var dates hours)
             (np_full [length dates, length hours] None) [0..<I]) = [length dates, length hours] \<and>
    length (nd_data (foldl (fill_row lib obs cols var dates hours)
             (np_full [length dates, length hours] None) [0..<I])) = length dates * length hours \<and>
    (\<forall>k<length dates * length hours.
       nd_data (foldl (fill_row lib obs cols var dates hours)
             (np_full [length dates, length hours] None) [0..<I]) ! k =
         (if k < I * length hours
          then grid_value lib obs cols var (dates ! (k div length hours))
                 (hours ! (k mod length hours))
          else None))"
  using assms
proof (induction I)
  case 0 show ?case by (simp add: np_full_def)
next
  case (Suc I)
  let ?n = "length dates" and ?mm = "length hours"
  let ?f = "fill_row lib obs cols var dates hours"
  let ?m = "foldl ?f (np_full [?n, ?mm] None) [0..<I]"
  have IH: "nd_shape ?m = [?n, ?mm]" "length (nd_data ?m) = ?n * ?mm"
    "\<forall>k<?n * ?mm. nd_data ?m ! k =
         (if k < I * ?mm
          then grid_value lib obs cols var (dates ! (k div ?mm)) (hours ! (k mod ?mm))
          else None)"
    using Suc by simp_all
  have I: "I < ?n" using Suc.prems by simp
  have none: "\<forall>j<?mm. nd_data ?m ! (I * ?mm + j) = None"
    using IH(3) idx_lt[OF I] by simp
  have le: "I * ?mm + ?mm \<le> length (nd_data ?m)"
  proof -
    have "Suc I * ?mm \<le> ?n * ?mm" using I by (intro mult_le_mono1) simp
    then show ?thesis using IH(2) by simp
  qed
  note row = fill_row_full[OF IH(1) none le refl, of lib obs cols var dates]
  have fold: "foldl ?f (np_full [?n, ?mm] None) [0..<Suc I] = ?f ?m I" by simp
  have vals: "nd_data (?f ?m I) ! k =
         (if k < Suc I * ?mm
          then grid_value lib obs cols var (dates ! (k div ?mm)) (hours ! (k mod ?mm))
          else None)" if k: "k < ?n * ?mm" for k
  proof -
    have r: "nd_data (?f ?m I) ! k =
         (if I * ?mm \<le> k \<and> k < I * ?mm + ?mm
          then grid_value lib obs cols var (dates ! I) (hours ! (k - I * ?mm))
          else nd_data ?m ! k)"
      using row k IH(2) by simp
    show ?thesis
    proof (cases "I * ?mm \<le> k \<and> k < I * ?mm + ?mm")
      case True
      then show ?thesis using r divmod_range[of I ?mm k] by simp
    next
      case False
      then show ?thesis using r IH(3) k by auto
    qed
  qed
  show ?case unfolding fold using row IH(2) vals by simp
qed

lemma var_matrix_of_cell:
  assumes "i < length dates" and "j < length hours"
  shows "get_cell (var_matrix_of lib obs cols var dates hours) i j =
         grid_value lib obs cols var (dates ! i) (hours ! j)"
proof -
  note m = var_matrix_upto[of "length dates" dates lib obs cols var hours, OF le_refl]
  have k: "i * length hours + j < length dates * length hours" using assms by (rule idx_lt)
  show ?thesis
    using m k divmod_idx[OF assms(2), of i]
    by (simp add: get_cell_def var_matrix_of_def)
qed

lemma var_matrix_of_shape:
  "nd_shape (var_matrix_of lib obs cols var dates hours) = [length dates, length hours] \<and>
   length (nd_data (var_matrix_of lib obs cols var dates hours)) = length dates * length hours"
  using var_matrix_upto[of "length dates" dates lib obs cols var hours, OF le_refl]
  by (simp add: var_matrix_of_def)

lemma update_set: "set (AList.update k v al) \<subseteq> insert (k, v) (set al)"
  by (induction al) auto

lemma clean_variable_names_values:
  "snd ` set (clean_variable_names data_vars) \<subseteq> snd ` set data_vars"
proof -
  have "snd ` set (foldl (\<lambda>cleaned_vars (var_name, var_data).
              AList.update (clean_name var_name) var_data cleaned_vars) acc dv)
        \<subseteq> snd ` set acc \<union> snd ` set dv" for acc and dv :: "(string \<times> 'a) list"
  proof (induction dv arbitrary: acc)
    case Nil show ?case by simp
  next
    case (Cons p dv)
    obtain k v where p: "p = (k, v)" by (cases p)
    have 1: "snd ` set (AList.update (clean_name k) v acc) \<subseteq> insert v (snd ` set acc)"
      using update_set[of "clean_name k" v acc] by auto
    have fold: "foldl (\<lambda>cleaned_vars (var_name, var_data).
              AList.update (clean_name var_name) var_data cleaned_vars) acc (p # dv) =
        foldl (\<lambda>cleaned_vars (var_name, var_data).
              AList.update (clean_name var_name) var_data cleaned_vars)
          (AList.update (clean_name k) v acc) dv"
      by (simp add: p)
    have img: "snd ` set (p # dv) = insert v (snd ` set dv)" by (simp add: p)
    show ?case unfolding fold img
      using 1 Cons.IH[of "AList.update (clean_name k) v acc"] by blast
  qed
  from this[of "[]" data_vars] show ?thesis by (simp add: clean_variable_names_def)
qed

lemma build_data_vars_values:
  "snd ` set (build_data_vars lib obs cols dates hours met_variables) \<subseteq>
   (\<lambda>var. (dims, reshape (var_matrix_of lib obs cols var dates hours)
                     [1, 1, 1, length dates, length hours, 1, 1, 1])) ` set met_variables"
proof -
  let ?g = "\<lambda>var. (dims, reshape (var_matrix_of lib obs cols var dates hours)
                     [1, 1, 1, length dates, length hours, 1, 1, 1])"
  have "snd ` set (foldl (\<lambda>data_vars var. AList.update var (?g var) data_vars) acc vs)
        \<subseteq> snd ` set acc \<union> ?g ` set vs" for acc vs
  proof (induction vs arbitrary: acc)
    case Nil show ?case by simp
  next
    case (Cons v vs)
    have 1: "snd ` set (AList.update v (?g v) acc) \<subseteq> insert (?g v) (snd ` set acc)"
      using update_set[of v "?g v" acc] by auto
    have fold: "foldl (\<lambda>data_vars var. AList.update var (?g var) data_vars) acc (v # vs) =
        foldl (\<lambda>data_vars var. AList.update var (?g var) data_vars)
          (AList.update v (?g v) acc) vs"
      by simp
    have img: "?g ` set (v # vs) = insert (?g v) (?g ` set vs)" by simp
    show ?case unfolding fold img
      using 1 Cons.IH[of "AList.update v (?g v) acc"] by blast
  qed
  from this[of "[]" met_variables] show ?thesis by (simp add: build_data_vars_def)
qed

lemma process_table_Inr:
  assumes "process_table lib debug ident coords metadata df = Inr ds"
  shows "ds_date ds = sort (remdups (map date_only (observations lib df))) \<and>
    ds_hour_utc ds = sort (remdups (map hour_only (observations lib df))) \<and>
    ds_data_vars ds = clean_variable_names
      (build_data_vars lib (observations lib df) (renamed_columns df)
         (sort (remdups (map date_only (observations lib df))))
         (sort (remdups (map hour_only (observations lib df))))
         (filter (\<lambda>col. col \<notin> set excluded_cols) (renamed_columns df)))"
  using assms
  by (auto simp: process_table_def Let_def split: if_splits prod.splits store_outcome.splits)

lemma dataset_grids:
  assumes "process_table lib debug ident coords metadata df = Inr ds"
    and "(name, d, a) \<in> set (ds_data_vars ds)"
  shows "\<exists>var. d = dims \<and>
    a = reshape (var_matrix_of lib (observations lib df) (renamed_columns df) var
                   (ds_date ds) (ds_hour_utc ds))
          [1, 1, 1, length (ds_date ds), length (ds_hour_utc ds), 1, 1, 1]"
proof -
  note p = process_table_Inr[OF assms(1)]
  have "(d, a) \<in> snd ` set (ds_data_vars ds)" using assms(2) by force
  then have "(d, a) \<in> snd ` set (build_data_vars lib (observations lib df)
      (renamed_columns df) (ds_date ds) (ds_hour_utc ds)
      (filter (\<lambda>col. col \<notin> set excluded_cols) (renamed_columns df)))"
    using p clean_variable_names_values by (metis (no_types, lifting) subsetD)
  then show ?thesis using build_data_vars_values by fastforce
qed

lemma axis_index: "x \<in> set xs \<Longrightarrow> \<exists>i<length (sort (remdups xs)). sort (remdups xs) ! i = x"
proof -
  assume "x \<in> set xs"
  then have "x \<in> set (sort (remdups xs))" by simp
  then show ?thesis by (simp only: in_set_conv_nth)
qed

lemma axis_nonempty: "obs \<noteq> [] \<Longrightarrow> sort (remdups (map f obs)) \<noteq> []"
proof -
  assume "obs \<noteq> []"
  then have "set (sort (remdups (map f obs))) \<noteq> {}" by simp
  then show ?thesis by (simp only: set_empty not_False_eq_True)
qed

lemma process_table_ends:
  assumes "\<not> essential_columns_missing (renamed_columns df)"
    and "count_list (renamed_columns df) ''date'' \<le> 1"
    and "count_list (renamed_columns df) ''hour_utc'' \<le> 1"
    and "observations lib df \<noteq> []"
  shows "(\<exists>ds. process_table lib debug ident coords metadata df = Inr ds) \<or>
         (\<exists>left. process_table lib debug ident coords metadata df = Inl (StoreError left))"
proof -
  obtain region uf wmo_code station_name where ident: "ident = (region, uf, wmo_code, station_name)"
    by (cases ident)
  obtain latitude longitude altitude where coords: "coords = (latitude, longitude, altitude)"
    by (cases coords)
  note ne = axis_nonempty[OF assms(4), of date_only]
  show ?thesis
    using assms(1-3) ne
    by (simp add: process_table_def Let_def ident coords not_less split: store_outcome.splits)
qed

text \<open>
  Claim C5, as amended. Take the table that pandas loaded and a surviving row that is
  the first with its date and hour. For every variable, the grid of the variable holds
  at the cell of that date and hour: \<open>float\<close> of the loaded value when pandas loaded a
  number; \<open>float\<close> of the loaded text when it is not empty and \<open>float\<close> accepts it; and
  the missing marker when the loaded value is missing, is the empty text, or is a text
  that \<open>float\<close> rejects, such as a number written with a decimal comma in a column that
  pandas loaded as text. And when the renamed columns hold \<open>date\<close> and \<open>hour_utc\<close> once
  each, no value of a cell makes the run fail: it ends with the dataset, unless
  building or writing the dataset raises.
\<close>

theorem grid_round_trip:
  assumes "find (\<lambda>r'. date_only r' = date_only r \<and> hour_only r' = hour_only r)
             (observations lib df) = Some r"
  shows "(\<exists>i j. i < length (sort (remdups (map date_only (observations lib df)))) \<and>
            j < length (sort (remdups (map hour_only (observations lib df)))) \<and>
            sort (remdups (map date_only (observations lib df))) ! i = date_only r \<and>
            sort (remdups (map hour_only (observations lib df))) ! j = hour_only r \<and>
            get_cell (var_matrix_of lib (observations lib df) (renamed_columns df) var
                        (sort (remdups (map date_only (observations lib df))))
                        (sort (remdups (map hour_only (observations lib df))))) i j =
              (case lookup_cell (renamed_columns df) (cells r) var of
                 NA \<Rightarrow> None
               | Num x \<Rightarrow> Some (py_float_num lib x)
               | Str s \<Rightarrow> if s = [] then None else py_float lib s)) \<and>
         (\<not> essential_columns_missing (renamed_columns df) \<and>
          count_list (renamed_columns df) ''date'' \<le> 1 \<and>
          count_list (renamed_columns df) ''hour_utc'' \<le> 1 \<longrightarrow>
          (\<exists>ds. process_table lib debug ident coords metadata df = Inr ds) \<or>
          (\<exists>left. process_table lib debug ident coords metadata df = Inl (StoreError left)))"
proof -
  let ?obs = "observations lib df"
  let ?dates = "sort (remdups (map date_only ?obs))" and ?hours = "sort (remdups (map hour_only ?obs))"
  have r: "r \<in> set ?obs" using assms by (auto simp: find_Some_iff)
  then have ne: "?obs \<noteq> []" by auto
  obtain i where i: "i < length ?dates" "?dates ! i = date_only r"
    using axis_index[of "date_only r" "map date_only ?obs"] r by auto
  obtain j where j: "j < length ?hours" "?hours ! j = hour_only r"
    using axis_index[of "hour_only r" "map hour_only ?obs"] r by auto
  have "get_cell (var_matrix_of lib ?obs (renamed_columns df) var ?dates ?hours) i j =
      grid_value lib ?obs (renamed_columns df) var (date_only r) (hour_only r)"
    using var_matrix_of_cell[OF i(1) j(1), of lib ?obs "renamed_columns df" var] i(2) j(2) by simp
  also have "\<dots> = (case lookup_cell (renamed_columns df) (cells r) var of
                 NA \<Rightarrow> None
               | Num x \<Rightarrow> Some (py_float_num lib x)
               | Str s \<Rightarrow> if s = [] then None else py_float lib s)"
    using assms by (simp add: grid_value_def cell_float_def)
  finally have cell: "get_cell (var_matrix_of lib ?obs (renamed_columns df) var ?dates ?hours) i j =
      (case lookup_cell (renamed_columns df) (cells r) var of
                 NA \<Rightarrow> None
               | Num x \<Rightarrow> Some (py_float_num lib x)
               | Str s \<Rightarrow> if s = [] then None else py_float lib s)" .
  have first: "\<exists>i j. i < length ?dates \<and> j < length ?hours \<and> ?dates ! i = date_only r \<and>
      ?hours ! j = hour_only r \<and>
      get_cell (var_matrix_of lib ?obs (renamed_columns df) var ?dates ?hours) i j =
      (case lookup_cell (renamed_columns df) (cells r) var of
                 NA \<Rightarrow> None
               | Num x \<Rightarrow> Some (py_float_num lib x)
               | Str s \<Rightarrow> if s = [] then None else py_float lib s)"
    using i j cell by blast
  have ends: "(\<exists>ds. process_table lib debug ident coords metadata df = Inr ds) \<or>
      (\<exists>left. process_table lib debug ident coords metadata df = Inl (StoreError left))"
    if "\<not> essential_columns_missing (renamed_columns df)"
      and "count_list (renamed_columns df) ''date'' \<le> 1"
      and "count_list (renamed_columns df) ''hour_utc'' \<le> 1"
    using process_table_ends[OF that ne] .
  show ?thesis using first ends by (intro conjI impI) (assumption, elim conjE, assumption+)
qed

lemma find_None_grid:
  "\<forall>r\<in>set obs. \<not> (date_only r = d \<and> hour_only r = h) \<Longrightarrow>
   grid_value lib obs cols var d h = None"
proof -
  assume "\<forall>r\<in>set obs. \<not> (date_only r = d \<and> hour_only r = h)"
  then have "find (\<lambda>r. date_only r = d \<and> hour_only r = h) obs = None"
    unfolding find_None_iff by blast
  then show ?thesis by (simp only: grid_value_def option.case)
qed

text \<open>
  Claim C6. In the dataset of a pipeline run that succeeds, the date axis and the hour
  axis are the sorted distinct dates and hours of the surviving rows, and every
  variable has the eight dimension names \<open>region\<close>, \<open>uf\<close>, \<open>wmo_code\<close>, \<open>date\<close>,
  \<open>hour_utc\<close>, \<open>lat\<close>, \<open>lon\<close>, \<open>alt\<close> in this order, the shape
  \<open>(1, 1, 1, dates, hours, 1, 1, 1)\<close>, one element per date and hour, and the missing
  marker in every cell whose date and hour no surviving row has.
\<close>

theorem dataset_shape:
  assumes "parse_inmet_csv_to_netcdf_robust lib debug csv_file_path bs = Inr ds"
  shows "\<exists>encoding df. pd_read_csv lib encoding bs = Some df \<and>
     ds_date ds = sort (remdups (map date_only (observations lib df))) \<and>
     ds_hour_utc ds = sort (remdups (map hour_only (observations lib df))) \<and>
     length (ds_date ds) = card (date_only ` set (observations lib df)) \<and>
     length (ds_hour_utc ds) = card (hour_only ` set (observations lib df)) \<and>
     (\<forall>(name, d, a) \<in> set (ds_data_vars ds).
        d = [''region'', ''uf'', ''wmo_code'', ''date'', ''hour_utc'', ''lat'', ''lon'', ''alt''] \<and>
        nd_shape a = [1, 1, 1, length (ds_date ds), length (ds_hour_utc ds), 1, 1, 1] \<and>
        length (nd_data a) = length (ds_date ds) * length (ds_hour_utc ds) \<and>
        (\<forall>i<length (ds_date ds). \<forall>j<length (ds_hour_utc ds).
           (\<forall>r\<in>set (observations lib df).
              \<not> (date_only r = ds_date ds ! i \<and> hour_only r = ds_hour_utc ds ! j)) \<longrightarrow>
           nd_data a ! (i * length (ds_hour_utc ds) + j) = None))"
proof -
  obtain encoding metadata coords df where csv: "pd_read_csv lib encoding bs = Some df"
    and p: "process_table lib debug (file_identity csv_file_path metadata) coords metadata df = Inr ds"
    using assms
    by (auto simp: parse_inmet_csv_to_netcdf_robust_def Let_def split: sum.splits option.splits)
  let ?obs = "observations lib df"
  note ax = process_table_Inr[OF p]
  have len: "length (ds_date ds) = card (date_only ` set ?obs)"
    "length (ds_hour_utc ds) = card (hour_only ` set ?obs)"
    using ax by (simp_all add: length_remdups_card_conv)
  have grids: "d = [''region'', ''uf'', ''wmo_code'', ''date'', ''hour_utc'', ''lat'', ''lon'', ''alt''] \<and>
        nd_shape a = [1, 1, 1, length (ds_date ds), length (ds_hour_utc ds), 1, 1, 1] \<and>
        length (nd_data a) = length (ds_date ds) * length (ds_hour_utc ds) \<and>
        (\<forall>i<length (ds_date ds). \<forall>j<length (ds_hour_utc ds).
           (\<forall>r\<in>set ?obs. \<not> (date_only r = ds_date ds ! i \<and> hour_only r = ds_hour_utc ds ! j)) \<longrightarrow>
           nd_data a ! (i * length (ds_hour_utc ds) + j) = None)"
    if mem: "(name, d, a) \<in> set (ds_data_vars ds)" for name d a
  proof -
    obtain var where d: "d = dims"
      and a: "a = reshape (var_matrix_of lib ?obs (renamed_columns df) var
                   (ds_date ds) (ds_hour_utc ds))
          [1, 1, 1, length (ds_date ds), length (ds_hour_utc ds), 1, 1, 1]"
      using dataset_grids[OF p mem] by blast
    let ?m = "var_matrix_of lib ?obs (renamed_columns df) var (ds_date ds) (ds_hour_utc ds)"
    note sh = var_matrix_of_shape[of lib ?obs "renamed_columns df" var "ds_date ds" "ds_hour_utc ds"]
    have cell: "nd_data a ! (i * length (ds_hour_utc ds) + j) = None"
      if ij: "i < length (ds_date ds)" "j < length (ds_hour_utc ds)"
        and no: "\<forall>r\<in>set ?obs. \<not> (date_only r = ds_date ds ! i \<and> hour_only r = ds_hour_utc ds ! j)"
      for i j
    proof -
      have "get_cell ?m i j = None"
        by (simp only: var_matrix_of_cell[OF ij] find_None_grid[OF no])
      then show ?thesis using sh by (simp add: a reshape_def get_cell_def)
    qed
    show ?thesis using d sh cell by (simp add: a reshape_def dims_def)
  qed
  show ?thesis using csv ax len grids by blast
qed

theorem grid_round_trip_witness:
  "(\<exists>i j. i < 2 \<and> j < 2 \<and> [1::nat, 2] ! i = 2 \<and> [0::nat, 1] ! j = 0 \<and>
     get_cell (var_matrix_of (example_library example_table)
                 (observations (example_library example_table) example_table)
                 (renamed_columns example_table) ''VENTO, VELOCIDADE (m/s)'' [1, 2] [0, 1]) i j
       = Some 700) \<and>
   ((\<exists>ds. process_table (example_library example_table) False
            (''CO'', ''DF'', ''A001'', ''BRASILIA'') (- 1578, - 4792, 116096) Map.empty
            example_table = Inr ds) \<or>
    (\<exists>left. process_table (example_library example_table) False
            (''CO'', ''DF'', ''A001'', ''BRASILIA'') (- 1578, - 4792, 116096) Map.empty
            example_table = Inl (StoreError left)))"
proof -
  let ?L = "example_library example_table"
  let ?r = "\<lparr>date_only = 2::nat, hour_only = 0,
             cells = [Str ''2024/01/02'', Str ''0000 UTC'', Num (2410::int), Str ''7'']\<rparr>"
  let ?obs = "observations ?L example_table"
  have f: "find (\<lambda>r'. date_only r' = date_only ?r \<and> hour_only r' = hour_only ?r) ?obs = Some ?r"
    by code_simp
  have axes: "sort (remdups (map date_only ?obs)) = [1, 2]"
    "sort (remdups (map hour_only ?obs)) = [0, 1]"
    by code_simp+
  have c: "(case lookup_cell (renamed_columns example_table) (cells ?r)
                   ''VENTO, VELOCIDADE (m/s)'' of
              NA \<Rightarrow> None
            | Num x \<Rightarrow> Some (py_float_num ?L x)
            | Str s \<Rightarrow> if s = [] then None else py_float ?L s) = Some 700"
    by code_simp
  have h: "\<not> essential_columns_missing (renamed_columns example_table)"
    "count_list (renamed_columns example_table) ''date'' \<le> 1"
    "count_list (renamed_columns example_table) ''hour_utc'' \<le> 1"
    by code_simp+
  show ?thesis
    using grid_round_trip [OF f, where var = "''VENTO, VELOCIDADE (m/s)''" and debug = False
        and ident = "(''CO'', ''DF'', ''A001'', ''BRASILIA'')"
        and coords = "(- 1578, - 4792, 116096)" and metadata = Map.empty] h
    unfolding axes c by (auto simp: numeral_2_eq_2)
qed

text \<open>
  Two surviving rows with the same date and hour: the grid holds the value of the
  first, and the number 2410 of the second row is in no cell. And in the file of two
  days the wind field \<open>3,5\<close> of the first day at hour 1 is in a column that is loaded as
  text: the second cell of the wind grid holds the missing marker, while \<open>25,5\<close> of
  the temperature column, loaded as a number, is in its grid.
\<close>

theorem grid_raw_value_counterexample:
  "observations (example_library repeated_hour_table) repeated_hour_table =
     [\<lparr>date_only = 1, hour_only = 0,
        cells = [Str ''2024/01/01'', Str ''0000 UTC'', Num 2550]\<rparr>,
      \<lparr>date_only = 1, hour_only = 0,
        cells = [Str ''2024/01/01'', Str ''0000 UTC'', Num 2410]\<rparr>] \<and>
   parse_inmet_csv_to_netcdf_robust (example_library repeated_hour_table) False
     ''INMET_CO_DF_A001_BRASILIA.CSV'' repeated_hour_file =
     Inr \<lparr>ds_data_vars =
            [(''TEMPERATURA_C'', [''region'', ''uf'', ''wmo_code'', ''date'', ''hour_utc'', ''lat'', ''lon'', ''alt''],
              \<lparr>nd_shape = [1, 1, 1, 1, 1, 1, 1, 1], nd_data = [Some 2550]\<rparr>)],
          ds_region = ''CO'', ds_uf = ''DF'', ds_wmo_code = ''A001'',
          ds_date = [1], ds_hour_utc = [0], ds_lat = - 1578, ds_lon = - 4792,
          ds_alt = 116096, ds_station = ''BRASILIA'',
          ds_date_of_foundation = ''07/05/00''\<rparr> \<and>
   parse_inmet_csv_to_netcdf_robust (example_library example_table) False
     ''INMET_CO_DF_A001_BRASILIA.CSV'' example_file =
     Inr \<lparr>ds_data_vars =
            [(''TEMPERATURA_C'', [''region'', ''uf'', ''wmo_code'', ''date'', ''hour_utc'', ''lat'', ''lon'', ''alt''],
              \<lparr>nd_shape = [1, 1, 1, 2, 2, 1, 1, 1],
                 nd_data = [Some 2550, None, Some 2410, Some 2380]\<rparr>),
             (''VENTO_VELOCIDADE_m_per_s'', [''region'', ''uf'', ''wmo_code'', ''date'', ''hour_utc'', ''lat'', ''lon'', ''alt''],
              \<lparr>nd_shape = [1, 1, 1, 2, 2, 1, 1, 1],
                 nd_data = [None, None, Some 700, None]\<rparr>)],
          ds_region = ''CO'', ds_uf = ''DF'', ds_wmo_code = ''A001'',
          ds_date = [1, 2], ds_hour_utc = [0, 1], ds_lat = - 1578, ds_lon = - 4792,
          ds_alt = 116096, ds_station = ''BRASILIA'',
          ds_date_of_foundation = ''07/05/00''\<rparr>"
  by code_simp

theorem dataset_shape_witness:
  "parse_inmet_csv_to_netcdf_robust (example_library example_table) False
     ''INMET_CO_DF_A001_BRASILIA.CSV'' example_file =
     Inr \<lparr>ds_data_vars =
            [(''TEMPERATURA_C'', [''region'', ''uf'', ''wmo_code'', ''date'', ''hour_utc'', ''lat'', ''lon'', ''alt''],
              \<lparr>nd_shape = [1, 1, 1, 2, 2, 1, 1, 1],
                 nd_data = [Some 2550, None, Some 2410, Some 2380]\<rparr>),
             (''VENTO_VELOCIDADE_m_per_s'', [''region'', ''uf'', ''wmo_code'', ''date'', ''hour_utc'', ''lat'', ''lon'', ''alt''],
              \<lparr>nd_shape = [1, 1, 1, 2, 2, 1, 1, 1],
                 nd_data = [None, None, Some 700, None]\<rparr>)],
          ds_region = ''CO'', ds_uf = ''DF'', ds_wmo_code = ''A001'',
          ds_date = [1, 2], ds_hour_utc = [0, 1], ds_lat = - 1578, ds_lon = - 4792,
          ds_alt = 116096, ds_station = ''BRASILIA'',
          ds_date_of_foundation = ''07/05/00''\<rparr> \<and>
   card (date_only ` set (observations (example_library example_table) example_table)) = 2 \<and>
   card (hour_only ` set (observations (example_library example_table) example_table)) = 2"
proof -
  let ?L = "example_library example_table"
  let ?ds = "\<lparr>ds_data_vars =
            [(''TEMPERATURA_C'', [''region'', ''uf'', ''wmo_code'', ''date'', ''hour_utc'', ''lat'', ''lon'', ''alt''],
              \<lparr>nd_shape = [1, 1, 1, 2, 2, 1, 1, 1],
                 nd_data = [Some (2550::int), None, Some 2410, Some 2380]\<rparr>),
             (''VENTO_VELOCIDADE_m_per_s'', [''region'', ''uf'', ''wmo_code'', ''date'', ''hour_utc'', ''lat'', ''lon'', ''alt''],
              \<lparr>nd_shape = [1, 1, 1, 2, 2, 1, 1, 1],
                 nd_data = [None, None, Some 700, None]\<rparr>)],
          ds_region = ''CO'', ds_uf = ''DF'', ds_wmo_code = ''A001'',
          ds_date = [1::nat, 2], ds_hour_utc = [0, 1], ds_lat = - 1578, ds_lon = - 4792,
          ds_alt = 116096, ds_station = ''BRASILIA'',
          ds_date_of_foundation = ''07/05/00''\<rparr>"
  have run: "parse_inmet_csv_to_netcdf_robust ?L False ''INMET_CO_DF_A001_BRASILIA.CSV'' example_file = Inr ?ds"
    by code_simp
  from dataset_shape [OF run] obtain encoding df
    where csv: "pd_read_csv ?L encoding example_file = Some df"
      and len: "length (ds_date ?ds) = card (date_only ` set (observations ?L df))"
        "length (ds_hour_utc ?ds) = card (hour_only ` set (observations ?L df))"
    by blast
  have "df = example_table" using csv by (simp add: example_library_def)
  then show ?thesis using run len by simp
qed
end
